theory Spec2Isabelle
  imports Complex_Main
begin

section \<open>Strings and numbers of the host language\<close>

text \<open>
  The plugin is TypeScript. Its strings are modelled as \<^typ>\<open>string\<close>, one
  \<^typ>\<open>char\<close> per code unit, so the documents covered are those whose code units lie
  below 256; there the only line terminators are line feed and carriage return.
\<close>

abbreviation LF :: char where "LF \<equiv> CHR 0x0A"
abbreviation CR :: char where "CR \<equiv> CHR 0x0D"

text \<open>\<^verbatim>\<open>s.startsWith(p)\<close> and \<^verbatim>\<open>s.endsWith(t)\<close>.\<close>

definition startsWith :: "string \<Rightarrow> string \<Rightarrow> bool" where
  "startsWith s p = (take (length p) s = p)"

definition endsWith :: "string \<Rightarrow> string \<Rightarrow> bool" where
  "endsWith s t = (length t \<le> length s \<and> drop (length s - length t) s = t)"

text \<open>\<^verbatim>\<open>s.padStart(n)\<close>: spaces in front, up to length \<open>n\<close>.\<close>

definition padStart :: "nat \<Rightarrow> string \<Rightarrow> string" where
  "padStart n s = replicate (n - length s) CHR '' '' @ s"

text \<open>\<^verbatim>\<open>s.split(c)\<close> for a one-character separator, and \<^verbatim>\<open>parts.join(sep)\<close>.\<close>

fun splitOn :: "char \<Rightarrow> string \<Rightarrow> string list" where
  "splitOn c [] = [[]]"
| "splitOn c (x # xs) =
     (if x = c then [] # splitOn c xs
      else (case splitOn c xs of
              [] \<Rightarrow> [[x]]
            | w # ws \<Rightarrow> (x # w) # ws))"

fun joinWith :: "string \<Rightarrow> string list \<Rightarrow> string" where
  "joinWith sep [] = []"
| "joinWith sep [w] = w"
| "joinWith sep (w # v # ws) = w @ sep @ joinWith sep (v # ws)"

text \<open>
  Numbers are the rationals: every finite double is one. \<^verbatim>\<open>Math.round\<close> rounds to
  the nearest integer, a tie going up.
\<close>

type_synonym number = rat

definition Math_round :: "number \<Rightarrow> int" where
  "Math_round x = \<lfloor>x + 1 / 2\<rfloor>"

definition digitChar :: "nat \<Rightarrow> char" where
  "digitChar d = ''0123456789'' ! (d mod 10)"

function showNat :: "nat \<Rightarrow> string" where
  "showNat n = (if n < 10 then [digitChar n] else showNat (n div 10) @ [digitChar n])"
  by pat_completeness auto
termination
  by (relation "measure id") auto

declare showNat.simps [simp del]

definition showInt :: "int \<Rightarrow> string" where
  "showInt i = (if i < 0 then CHR ''-'' # showNat (nat (- i)) else showNat (nat i))"

text \<open>
  \<^verbatim>\<open>String(x)\<close> of a number. A whole number up to \<open>2\<^sup>5\<^sup>3\<close> in size prints as its
  decimal digits. Any other number prints as the shortest decimal that reads back as the
  same double (padded with zeros where it is whole), which the rationals do not
  determine: that rendering is the parameter \<open>fractionToString\<close>. The arithmetic of the
  model is exact; the rounding of sums and quotients of doubles is not modelled.
\<close>

definition numberToString :: "(number \<Rightarrow> string) \<Rightarrow> number \<Rightarrow> string" where
  "numberToString fractionToString x =
     (if x = of_int \<lfloor>x\<rfloor> \<and> \<bar>x\<bar> \<le> 2 ^ 53 then showInt \<lfloor>x\<rfloor> else fractionToString x)"

section \<open>Objects as association lists\<close>

text \<open>
  An object is the list of its properties in creation order, keys distinct.
  \<^verbatim>\<open>obj[k] = v\<close> overwrites the value of a property that exists, in place, and
  appends a new property otherwise.
\<close>

fun assign :: "'k \<Rightarrow> 'v \<Rightarrow> ('k \<times> 'v) list \<Rightarrow> ('k \<times> 'v) list" where
  "assign k v [] = [(k, v)]"
| "assign k v ((k', v') # kvs) =
     (if k = k' then (k, v) # kvs else (k', v') # assign k v kvs)"

text \<open>
  Property enumeration (\<^verbatim>\<open>for ... in\<close>, \<^verbatim>\<open>Object.values\<close>) of an object whose keys
  are written as natural numbers: the keys that are array indices (below \<open>2\<^sup>3\<^sup>2 - 1\<close>)
  come first, in ascending numeric order, and the others follow in creation order.
\<close>

definition isArrayIndex :: "nat \<Rightarrow> bool" where
  "isArrayIndex k = (k < 4294967295)"

definition ownEntries :: "(nat \<times> 'v) list \<Rightarrow> (nat \<times> 'v) list" where
  "ownEntries kvs =
     sort_key fst (filter (\<lambda>kv. isArrayIndex (fst kv)) kvs)
     @ filter (\<lambda>kv. \<not> isArrayIndex (fst kv)) kvs"

section \<open>Settings\<close>

record HassConnectSettings =
  token :: string
  instance_uri :: string
  sensor :: string
  refresh_interval :: nat
  create_daily_notes :: bool
  format_times :: bool
  tables_subfolder :: string
  calorie_field :: string
  exercise_field :: string
  hydration_field :: string
  steps_field :: string
  weight_field :: string
  total_sleep_field :: string
  heartrate_section :: string
  blood_oxygen_section :: string
  exercise_list_section :: string
  summary_section :: string

definition DEFAULT_SETTINGS :: HassConnectSettings where
  "DEFAULT_SETTINGS = \<lparr>
     token = '''',
     instance_uri = '''',
     sensor = ''health_connect'',
     refresh_interval = 1000 * 60 * 60 * 6,
     create_daily_notes = True,
     format_times = False,
     tables_subfolder = ''tables'',
     calorie_field = ''Active Calories'',
     exercise_field = ''Exercise Minutes'',
     hydration_field = ''mL Hydrated'',
     steps_field = ''Steps'',
     weight_field = ''Weight'',
     total_sleep_field = ''Total Sleep'',
     heartrate_section = ''Heartrate'',
     blood_oxygen_section = ''Blood Oxygen'',
     exercise_list_section = ''Oefening'',
     summary_section = ''Gezondheid'' \<rparr>"

definition IGNORED_DATES :: "string list" where
  "IGNORED_DATES = [''lastSleep'']"

definition UNCOUNTED_SLEEP_STAGES :: "string list" where
  "UNCOUNTED_SLEEP_STAGES = [''Awake'']"

definition EXERCISE_TYPE_MAPPINGS :: "(string \<times> string) list" where
  "EXERCISE_TYPE_MAPPINGS = [(''Treadmill Running'', ''Treadmill'')]"

section \<open>The sensor URL\<close>

definition getSensorURL :: "HassConnectSettings \<Rightarrow> string" where
  "getSensorURL cfg =
     (let separator = (if endsWith (instance_uri cfg) ''/'' then '''' else ''/'');
          sensor_prefix = (if startsWith (sensor cfg) ''sensor.'' then '''' else ''sensor.'')
      in instance_uri cfg @ separator @ ''api/states/'' @ sensor_prefix @ sensor cfg)"

section \<open>The vault, the host and the plugin's state\<close>

type_synonym date = string
type_synonym path = string

text \<open>
  A note has two regions: the metadata block, which the host reads and writes as a
  mapping from field names to values (\<^verbatim>\<open>processFrontMatter\<close>), and the text that
  \<^verbatim>\<open>vault.read\<close> returns and \<^verbatim>\<open>vault.modify\<close> replaces. How the host prints the
  block into the text is the host's business and is not part of the model.
\<close>

record document =
  frontmatter :: "string \<rightharpoonup> string"
  content :: string

text \<open>
  What the plugin takes from its host and does not change during a run: its settings,
  the daily-notes options, the date library
  (\<open>momentFormat h d f\<close> is \<^verbatim>\<open>window.moment(d, "YYYY-MM-DD").format(f)\<close>,
  \<open>momentUnixFormat h t f\<close> is \<^verbatim>\<open>window.moment(t, "X").format(f)\<close>), the printing of
  numbers that are not whole, the note that the daily-note constructor makes for a date,
  the paths at which the storage layer refuses to create anything, and the language's
  pattern engine for the section patterns that the model does not spell out
  (\<open>regExpOther\<close>, see the section rewriter: the search function of the pattern, or
  nothing where the pattern is refused).
\<close>

text \<open>A match of a pattern: where it starts, the matched text, and its groups.\<close>

record rmatch =
  m_index :: nat
  m_matched :: string
  m_captures :: "string option list"

record host =
  settings :: HassConnectSettings
  daily_note_format :: string
  daily_note_folder :: string
  momentFormat :: "date \<Rightarrow> string \<Rightarrow> string"
  momentUnixFormat :: "nat \<Rightarrow> string \<Rightarrow> string"
  fractionToString :: "number \<Rightarrow> string"
  dailyNoteTemplate :: "date \<Rightarrow> document"
  storageRefuses :: "path \<Rightarrow> bool"
  regExpOther :: "string \<Rightarrow> (string \<Rightarrow> rmatch option) option"

text \<open>
  What a run changes: the files and folders of the vault, and the plugin's
  \<^verbatim>\<open>summary\<close> object (dates in creation order, each with its fields in creation order).
\<close>

record state =
  files :: "path \<rightharpoonup> document"
  folders :: "path list"
  summary :: "(date \<times> (string \<times> string) list) list"

text \<open>
  An asynchronous method is a function from the state to a result and the new state. It
  either returns a value or throws (its promise rejects). \<open>andThen\<close> is a call under
  \<^verbatim>\<open>await\<close>: a rejection leaves the caller at once. \<open>notAwaited\<close> is a call whose
  promise is dropped: the caller goes on whatever becomes of it. The model runs such a
  call to its end at the place of the call; the interleaving of the real scheduler is
  not modelled.
\<close>

datatype exc =
  UnableToCreateDailyNote
| CreateRejected path
| CreateFolderRejected path
| SyntaxError string

datatype 'a result = Ok 'a | Threw exc

type_synonym 'a action = "state \<Rightarrow> 'a result \<times> state"

definition andThen :: "'a action \<Rightarrow> ('a \<Rightarrow> 'b action) \<Rightarrow> 'b action" where
  "andThen f g s =
     (case f s of
        (Ok x, s') \<Rightarrow> g x s'
      | (Threw e, s') \<Rightarrow> (Threw e, s'))"

definition notAwaited :: "'a action \<Rightarrow> unit action" where
  "notAwaited f s = (Ok (), snd (f s))"

definition skip :: "unit action" where
  "skip s = (Ok (), s)"

text \<open>A loop whose body is awaited: the first rejection ends it.\<close>

fun forEach :: "'a list \<Rightarrow> ('a \<Rightarrow> unit action) \<Rightarrow> unit action" where
  "forEach [] body s = (Ok (), s)"
| "forEach (x # xs) body s =
     (case body x s of
        (Ok u, s') \<Rightarrow> forEach xs body s'
      | (Threw e, s') \<Rightarrow> (Threw e, s'))"

section \<open>Document locator\<close>

definition dailyNotePathFor :: "host \<Rightarrow> date \<Rightarrow> bool \<Rightarrow> path action" where
  "dailyNotePathFor h raw_date for_table s =
     (let parts = splitOn CHR ''/'' (daily_note_format h);
          daily_note_path_day_section = last parts;
          daily_note_path_nonday_section =
            (if length parts > 1 then joinWith ''/'' (butlast parts) else '''')
      in if for_table \<and> tables_subfolder (settings h) \<noteq> '''' then
           (let formatted_day_section = momentFormat h raw_date daily_note_path_day_section;
                formatted_nonday_section = momentFormat h raw_date daily_note_path_nonday_section;
                target_subfolder =
                  daily_note_folder h @ ''/'' @ formatted_nonday_section @ ''/''
                  @ tables_subfolder (settings h);
                target = target_subfolder @ ''/'' @ formatted_day_section @ '' Tables.md''
            in if target_subfolder \<in> set (folders s) then (Ok target, s)
               else if storageRefuses h target_subfolder
                 then (Threw (CreateFolderRejected target_subfolder), s)
               else (Ok target, s\<lparr>folders := target_subfolder # folders s\<rparr>))
         else
           (Ok (daily_note_folder h @ ''/'' @ momentFormat h raw_date (daily_note_format h)
                @ ''.md''), s))"

definition getTableNoteInitialContents :: "HassConnectSettings \<Rightarrow> string" where
  "getTableNoteInitialContents cfg =
     (if heartrate_section cfg \<noteq> '''' then ''# '' @ heartrate_section cfg @ [LF, LF] else '''')
     @ (if blood_oxygen_section cfg \<noteq> ''''
        then ''# '' @ blood_oxygen_section cfg @ [LF, LF] else '''')"

text \<open>\<^verbatim>\<open>vault.create(path, text)\<close>: the new file, or a rejection of the storage layer.\<close>

definition vaultCreate :: "host \<Rightarrow> path \<Rightarrow> string \<Rightarrow> path action" where
  "vaultCreate h p txt s =
     (if storageRefuses h p then (Threw (CreateRejected p), s)
      else (Ok p, s\<lparr>files := (files s)(p \<mapsto> \<lparr>frontmatter = Map.empty, content = txt\<rparr>)\<rparr>))"

text \<open>
  The daily-note constructor of the host's daily-notes interface, which is no part of
  this program. The model takes it by its declared result, a file: it builds the note of
  a date from the user's template, at the path the plugin computes for the daily note.
  Where the storage layer refuses, the model lets it yield no file, the one failure
  \<^verbatim>\<open>dailyNoteFor\<close> tests for (\<^verbatim>\<open>daily_note === null\<close>) and turns into its exception. A
  constructor that reports a refusal in another way, or that builds the note at a path
  of its own, is not covered; no example below has a daily note refused.
\<close>

definition createDailyNote :: "host \<Rightarrow> date \<Rightarrow> state \<Rightarrow> path option \<times> state" where
  "createDailyNote h raw_date s =
     (let p = daily_note_folder h @ ''/'' @ momentFormat h raw_date (daily_note_format h)
              @ ''.md''
      in if storageRefuses h p then (None, s)
         else (Some p, s\<lparr>files := (files s)(p \<mapsto> dailyNoteTemplate h raw_date)\<rparr>))"

definition dailyNoteFor :: "host \<Rightarrow> date \<Rightarrow> bool \<Rightarrow> path action" where
  "dailyNoteFor h raw_date for_table =
     andThen (dailyNotePathFor h raw_date for_table) (\<lambda>daily_note_path s.
       (case files s daily_note_path of
          Some n \<Rightarrow> (Ok daily_note_path, s)
        | None \<Rightarrow>
            if create_daily_notes (settings h) then
              (if for_table \<and> tables_subfolder (settings h) \<noteq> '''' then
                 vaultCreate h daily_note_path (getTableNoteInitialContents (settings h)) s
               else
                 (case createDailyNote h raw_date s of
                    (Some daily_note, s') \<Rightarrow> (Ok daily_note, s')
                  | (None, s') \<Rightarrow> (Threw UnableToCreateDailyNote, s')))
            else (Threw UnableToCreateDailyNote, s)))"

section \<open>Metadata merger and run summary\<close>

text \<open>\<^verbatim>\<open>processFrontMatter(file, fm => { fm[field] = value })\<close>.\<close>

definition processFrontMatter :: "path \<Rightarrow> string \<Rightarrow> string \<Rightarrow> state \<Rightarrow> state" where
  "processFrontMatter file field val s =
     (case files s file of
        None \<Rightarrow> s
      | Some n \<Rightarrow>
          s\<lparr>files := (files s)(file \<mapsto> n\<lparr>frontmatter := (frontmatter n)(field \<mapsto> val)\<rparr>)\<rparr>)"

definition storeToSummary :: "date \<Rightarrow> string \<Rightarrow> string \<Rightarrow> state \<Rightarrow> state" where
  "storeToSummary target_date field val s =
     (let bootstrapped =
            (case map_of (summary s) target_date of
               None \<Rightarrow> assign target_date [] (summary s)
             | Some d \<Rightarrow> summary s);
          daily = (case map_of bootstrapped target_date of None \<Rightarrow> [] | Some d \<Rightarrow> d)
      in s\<lparr>summary := assign target_date (assign field val daily) bootstrapped\<rparr>)"

text \<open>
  \<^verbatim>\<open>updateFrontMatter\<close>. The host's \<^verbatim>\<open>processFrontMatter\<close> is called without
  \<^verbatim>\<open>await\<close>; the model applies it at the place of the call. \<^verbatim>\<open>dailyNoteFor\<close> returns a
  file or throws, so the test \<^verbatim>\<open>file_to_edit === null\<close> never holds and only logs.
\<close>

definition updateFrontMatter :: "host \<Rightarrow> date \<Rightarrow> string \<Rightarrow> string \<Rightarrow> unit action" where
  "updateFrontMatter h target_date field val =
     andThen (dailyNoteFor h target_date False) (\<lambda>file_to_edit s.
       (Ok (), storeToSummary target_date field val
                 (processFrontMatter file_to_edit field val s)))"

definition updateFrontMatterByField ::
  "host \<Rightarrow> (date \<times> 'r) list option \<Rightarrow> string \<Rightarrow> ('r \<Rightarrow> string) \<Rightarrow> unit action" where
  "updateFrontMatterByField h readings field selector =
     (case readings of
        None \<Rightarrow> skip
      | Some rs \<Rightarrow>
          forEach rs (\<lambda>(date, reading).
            if date \<in> set IGNORED_DATES then skip
            else (let val = selector reading
                  in if val \<noteq> ''undefined'' then updateFrontMatter h date field val
                     else skip)))"

section \<open>Section rewriter\<close>

subsection \<open>The section pattern\<close>

text \<open>
  \<^verbatim>\<open>RegExp(`(^#+ ${heading_regex}[ ]*\\n)[^#]*((\n#)|($(?![\r\n])))`, "m")\<close>.
  The heading is spliced into the pattern as it is, so the engine reads it as pattern
  text. The model spells out three kinds of heading and leaves every other heading to
  the engine of the host (\<open>sectionRegExp\<close>, below):

  \<^item> plain text, free of the characters the pattern language reads as syntax
    (\<open>plainHeading\<close>): such a heading matches itself and adds no group, so the pattern
    has the four groups written above;
  \<^item> plain text with one pair of parentheses (\<open>groupedHeading\<close>): the pattern matches
    what it matches without the parentheses, and the text between them is a group of
    its own, the second of five;
  \<^item> plain text with \<^verbatim>\<open>*\<close> and \<^verbatim>\<open>+\<close> where two of them stand side by side
    (\<open>malformedHeading\<close>): the second has nothing to repeat and the constructor throws
    a \<^verbatim>\<open>SyntaxError\<close>.

  The matcher follows the pattern piece by piece. \<open>starThen cls k\<close> is a greedy
  \<^verbatim>\<open>[...]*\<close> followed by the rest \<open>k\<close> of the pattern: it takes as many characters of the
  class as it can and gives them back one at a time until the rest matches.
\<close>

definition plainHeading :: "string \<Rightarrow> bool" where
  "plainHeading heading = (set heading \<inter> set (CHR 0x5C # ''^$.*+?()[]{}|'') = {})"

definition isLineTerminator :: "char \<Rightarrow> bool" where
  "isLineTerminator c = (c = LF \<or> c = CR)"

fun starThen :: "(char \<Rightarrow> bool) \<Rightarrow> (string \<Rightarrow> 'a option) \<Rightarrow> string \<Rightarrow> (string \<times> 'a) option" where
  "starThen cls k [] = map_option (Pair []) (k [])"
| "starThen cls k (c # cs) =
     (if cls c then
        (case starThen cls k cs of
           Some (taken, r) \<Rightarrow> Some (c # taken, r)
         | None \<Rightarrow> map_option (Pair []) (k (c # cs)))
      else map_option (Pair []) (k (c # cs)))"

definition literalThen :: "string \<Rightarrow> (string \<Rightarrow> 'a option) \<Rightarrow> string \<Rightarrow> 'a option" where
  "literalThen lit k s = (if take (length lit) s = lit then k (drop (length lit) s) else None)"

text \<open>
  The second group, \<^verbatim>\<open>((\n#)|($(?![\r\n])))\<close>: a line feed and a hash, or else the end
  of a line (the end of the text, or a place before a line terminator) that is not
  followed by a carriage return or a line feed. The result is the text of group 2,
  groups 3 and 4 (the one not taken is undefined) and what follows the match.
\<close>

definition boundary ::
  "string \<Rightarrow> (string \<times> string option \<times> string option \<times> string) option" where
  "boundary s =
     (if take 2 s = [LF, CHR ''#''] then Some ([LF, CHR ''#''], Some [LF, CHR ''#''], None, drop 2 s)
      else if (s = [] \<or> isLineTerminator (hd s)) \<and> \<not> (s \<noteq> [] \<and> (hd s = CR \<or> hd s = LF))
        then Some ([], None, Some [], s)
      else None)"

text \<open>
  The pattern after its \<^verbatim>\<open>^\<close>: \<^verbatim>\<open>#+\<close>, a space, the heading, \<^verbatim>\<open>[ ]*\<close>, a line feed,
  \<^verbatim>\<open>[^#]*\<close> and the second group. The result holds the hashes after the first, the
  spaces after the heading, the text \<^verbatim>\<open>[^#]*\<close> took, and the result of \<open>boundary\<close>.
\<close>

definition sectionAt ::
  "string \<Rightarrow> string \<Rightarrow>
   (string \<times> string \<times> string \<times> string \<times> string option \<times> string option \<times> string) option" where
  "sectionAt heading s =
     (case s of
        [] \<Rightarrow> None
      | c # s1 \<Rightarrow>
          if c = CHR ''#'' then
            starThen (\<lambda>c. c = CHR ''#'')
              (literalThen (CHR '' '' # heading)
                (starThen (\<lambda>c. c = CHR '' '')
                  (literalThen [LF]
                    (starThen (\<lambda>c. c \<noteq> CHR ''#'') boundary)))) s1
          else None)"

definition mkMatch ::
  "nat \<Rightarrow> string \<Rightarrow>
   (string \<times> string \<times> string \<times> string \<times> string option \<times> string option \<times> string) \<Rightarrow> rmatch" where
  "mkMatch i heading r =
     (case r of (hashes, spaces, body, g2, g3, g4, rest) \<Rightarrow>
        (let g1 = CHR ''#'' # hashes @ CHR '' '' # heading @ spaces @ [LF]
         in \<lparr> m_index = i, m_matched = g1 @ body @ g2,
              m_captures = [Some g1, Some g2, g3, g4] \<rparr>))"

text \<open>
  The search tries every start from the left; \<open>bol\<close> says whether \<^verbatim>\<open>^\<close> holds
  there (flag \<^verbatim>\<open>m\<close>: at the start of the text or after a line terminator).
\<close>

fun execFrom :: "string \<Rightarrow> bool \<Rightarrow> nat \<Rightarrow> string \<Rightarrow> rmatch option" where
  "execFrom heading bol i [] =
     (case (if bol then sectionAt heading [] else None) of
        Some r \<Rightarrow> Some (mkMatch i heading r)
      | None \<Rightarrow> None)"
| "execFrom heading bol i (c # cs) =
     (case (if bol then sectionAt heading (c # cs) else None) of
        Some r \<Rightarrow> Some (mkMatch i heading r)
      | None \<Rightarrow> execFrom heading (isLineTerminator c) (Suc i) cs)"

text \<open>The search of the pattern of a plain heading in a text.\<close>

definition section_exec :: "string \<Rightarrow> string \<Rightarrow> rmatch option" where
  "section_exec heading txt = execFrom heading True 0 txt"

subsection \<open>Headings that are not plain text\<close>

text \<open>
  Two quantifiers side by side. In \<^verbatim>\<open>C++\<close> the first \<^verbatim>\<open>+\<close> repeats the \<^verbatim>\<open>C\<close> and
  the second has nothing to repeat; the same holds for every pair of \<^verbatim>\<open>*\<close> and
  \<^verbatim>\<open>+\<close> (a quantifier at the start of the heading repeats the space before it). No
  other character of such a heading is pattern syntax, so nothing can make the pair
  legal.
\<close>

fun stackedQuantifiers :: "string \<Rightarrow> bool" where
  "stackedQuantifiers (c # d # cs) =
     ((c \<in> set ''*+'' \<and> d \<in> set ''*+'') \<or> stackedQuantifiers (d # cs))"
| "stackedQuantifiers cs = False"

definition malformedHeading :: "string \<Rightarrow> bool" where
  "malformedHeading heading =
     (set heading \<inter> set (CHR 0x5C # ''^$.?()[]{}|'') = {} \<and> stackedQuantifiers heading)"

text \<open>
  One group: the heading is plain text, an opening parenthesis, plain text, a closing
  parenthesis and plain text. The result is the three plain texts.
\<close>

definition groupedHeading :: "string \<Rightarrow> (string \<times> string \<times> string) option" where
  "groupedHeading heading =
     (let before = takeWhile (\<lambda>c. c \<noteq> CHR ''('') heading;
          rest = drop (Suc (length before)) heading;
          inside = takeWhile (\<lambda>c. c \<noteq> CHR '')'') rest;
          behind = drop (Suc (length inside)) rest
      in if length before < length heading \<and> length inside < length rest
            \<and> plainHeading before \<and> plainHeading inside \<and> plainHeading behind
         then Some (before, inside, behind)
         else None)"

text \<open>
  The groups are numbered by their opening parentheses: the group of the heading comes
  after the first group (the heading line) and before the groups of the boundary.
\<close>

definition withGroup :: "string \<Rightarrow> rmatch \<Rightarrow> rmatch" where
  "withGroup inside m = m\<lparr>m_captures := hd (m_captures m) # Some inside # tl (m_captures m)\<rparr>"

text \<open>
  \<^verbatim>\<open>RegExp(...)\<close> for a heading: the search function of the pattern, or nothing where
  the constructor throws.
\<close>

definition sectionRegExp :: "host \<Rightarrow> string \<Rightarrow> (string \<Rightarrow> rmatch option) option" where
  "sectionRegExp h heading =
     (if plainHeading heading then Some (section_exec heading)
      else if malformedHeading heading then None
      else
        (case groupedHeading heading of
           Some (before, inside, behind) \<Rightarrow>
             Some (\<lambda>txt. map_option (withGroup inside)
                           (section_exec (before @ inside @ behind) txt))
         | None \<Rightarrow> regExpOther h heading))"

text \<open>\<^verbatim>\<open>section_regex.test(content)\<close>.\<close>

definition regexTest :: "(string \<Rightarrow> rmatch option) \<Rightarrow> string \<Rightarrow> bool" where
  "regexTest section_regex txt = (section_regex txt \<noteq> None)"

abbreviation section_test :: "string \<Rightarrow> string \<Rightarrow> bool" where
  "section_test heading \<equiv> regexTest (section_exec heading)"

subsection \<open>Replacement text\<close>

text \<open>
  The expansion of a replacement string (\<^verbatim>\<open>GetSubstitution\<close> of the language): \<^verbatim>\<open>$$\<close>
  is a dollar, \<^verbatim>\<open>$&\<close> the matched text, \<^verbatim>\<open>$`\<close> and \<^verbatim>\<open>$'\<close> the text before and after
  the match, \<^verbatim>\<open>$n\<close> and \<^verbatim>\<open>$nn\<close> a group; any other dollar stands for itself. There
  are no named groups.
\<close>

definition isDigit :: "char \<Rightarrow> bool" where
  "isDigit c = (c \<in> set ''0123456789'')"

definition digitValue :: "char \<Rightarrow> nat" where
  "digitValue c = of_char c - 48"

definition captureText :: "string option list \<Rightarrow> nat \<Rightarrow> string" where
  "captureText caps n = (case caps ! (n - 1) of None \<Rightarrow> [] | Some t \<Rightarrow> t)"

fun getSubstitution :: "string \<Rightarrow> string \<Rightarrow> nat \<Rightarrow> string option list \<Rightarrow> string \<Rightarrow> string" where
  "getSubstitution matched str position caps [] = []"
| "getSubstitution matched str position caps [c] = [c]"
| "getSubstitution matched str position caps (c # d # rest) =
     (if c \<noteq> CHR ''$'' then c # getSubstitution matched str position caps (d # rest)
      else if d = CHR ''$'' then CHR ''$'' # getSubstitution matched str position caps rest
      else if d = CHR ''&'' then matched @ getSubstitution matched str position caps rest
      else if d = CHR 0x60 then take position str @ getSubstitution matched str position caps rest
      else if d = CHR 0x27 then
        drop (position + length matched) str @ getSubstitution matched str position caps rest
      else if isDigit d then
        (case rest of
           [] \<Rightarrow>
             (if 1 \<le> digitValue d \<and> digitValue d \<le> length caps
              then captureText caps (digitValue d) else [c, d])
         | e # rest' \<Rightarrow>
             (if isDigit e \<and> 10 * digitValue d + digitValue e \<le> length caps then
                (if 1 \<le> 10 * digitValue d + digitValue e
                 then captureText caps (10 * digitValue d + digitValue e)
                      @ getSubstitution matched str position caps rest'
                 else [c, d, e] @ getSubstitution matched str position caps rest')
              else
                (if 1 \<le> digitValue d \<and> digitValue d \<le> length caps
                 then captureText caps (digitValue d)
                      @ getSubstitution matched str position caps (e # rest')
                 else [c, d] @ getSubstitution matched str position caps (e # rest'))))
      else c # getSubstitution matched str position caps (d # rest))"

text \<open>\<^verbatim>\<open>str.indexOf(pat)\<close> and \<^verbatim>\<open>str.replace(pat, replacement)\<close> for a string \<open>pat\<close>:
  only the first occurrence is replaced, and the replacement is expanded as above.\<close>

fun stringIndexOf :: "string \<Rightarrow> string \<Rightarrow> nat option" where
  "stringIndexOf [] pat = (if pat = [] then Some 0 else None)"
| "stringIndexOf (c # cs) pat =
     (if take (length pat) (c # cs) = pat then Some 0
      else map_option Suc (stringIndexOf cs pat))"

definition stringReplace :: "string \<Rightarrow> string \<Rightarrow> string \<Rightarrow> string" where
  "stringReplace str pat replacement =
     (case stringIndexOf str pat of
        None \<Rightarrow> str
      | Some pos \<Rightarrow>
          take pos str @ getSubstitution pat str pos [] replacement
          @ drop (pos + length pat) str)"

text \<open>\<^verbatim>\<open>content.replace(section_regex, replacement)\<close>: the leftmost match is replaced.\<close>

definition regexReplace :: "(string \<Rightarrow> rmatch option) \<Rightarrow> string \<Rightarrow> string \<Rightarrow> string" where
  "regexReplace section_regex txt replacement =
     (case section_regex txt of
        None \<Rightarrow> txt
      | Some m \<Rightarrow>
          take (m_index m) txt
          @ getSubstitution (m_matched m) txt (m_index m) (m_captures m) replacement
          @ drop (m_index m + length (m_matched m)) txt)"

abbreviation section_replace :: "string \<Rightarrow> string \<Rightarrow> string \<Rightarrow> string" where
  "section_replace heading \<equiv> regexReplace (section_exec heading)"

subsection \<open>replaceSection\<close>

definition vaultRead :: "state \<Rightarrow> path \<Rightarrow> string" where
  "vaultRead s file = (case files s file of None \<Rightarrow> [] | Some n \<Rightarrow> content n)"

definition vaultModify :: "path \<Rightarrow> string \<Rightarrow> state \<Rightarrow> state" where
  "vaultModify file txt s =
     (case files s file of
        None \<Rightarrow> s
      | Some n \<Rightarrow> s\<lparr>files := (files s)(file \<mapsto> n\<lparr>content := txt\<rparr>)\<rparr>)"

text \<open>
  The note is located and read before the pattern is built, so a heading that the
  constructor refuses makes the call throw after the note is there.
\<close>

definition replaceSection :: "host \<Rightarrow> date \<Rightarrow> string \<Rightarrow> string \<Rightarrow> bool \<Rightarrow> unit action" where
  "replaceSection h date heading_regex new_section_content new_content_is_table =
     (if heading_regex = '''' then skip
      else
        andThen (dailyNoteFor h date new_content_is_table) (\<lambda>target_file s.
          (let txt = vaultRead s target_file
           in case sectionRegExp h heading_regex of
                None \<Rightarrow> (Threw (SyntaxError heading_regex), s)
              | Some section_regex \<Rightarrow>
                  if \<not> regexTest section_regex txt then (Ok (), s)
                  else
                    (let new_section_content_escaped =
                           stringReplace new_section_content ''$'' ''$$'';
                         new_content =
                           regexReplace section_regex txt
                             (''$1'' @ new_section_content_escaped @ ''$2'')
                     in (Ok (), vaultModify target_file new_content s)))))"

section \<open>Readings\<close>

text \<open>
  The shapes of \<^verbatim>\<open>types.ts\<close>, with the fields the plugin reads. A collection keyed by
  date is the list of its entries in enumeration order (a date is no array index, so
  that is creation order); a collection keyed by timestamp is the list of its entries
  in creation order, enumerated through \<open>ownEntries\<close>. A collection that is
  \<^verbatim>\<open>null\<close> or \<^verbatim>\<open>undefined\<close> is \<open>None\<close>.
\<close>

record CaloriesDay =
  energy :: number

record ExerciseSession =
  durationFormatted :: string
  exerciseName :: string

record ExerciseDay =
  sessions :: "ExerciseSession list"
  totalDuration :: number

record HeartRateReading =
  bpm :: number

type_synonym HeartRateReadingDay = "(nat \<times> HeartRateReading) list"

record HydrationDay =
  volume :: number

type_synonym BloodOxygenReading = "(nat \<times> number) list"

record SleepSession =
  duration :: number

text \<open>The field \<^verbatim>\<open>sessions\<close> of a sleep stage is \<open>stageSessions\<close> here.\<close>

record SleepStage =
  stageFormat :: string
  stageSessions :: "SleepSession list"

record SleepDay =
  stage :: "SleepStage list"

record StepDay =
  count :: number

type_synonym WeightReading = "(nat \<times> number) list"

record SensorData =
  calories :: "(date \<times> CaloriesDay) list option"
  exercise :: "(date \<times> ExerciseDay) list option"
  heart :: "(date \<times> HeartRateReadingDay) list option"
  hydration :: "(date \<times> HydrationDay) list option"
  oxygen :: "(date \<times> BloodOxygenReading) list option"
  sleep :: "(date \<times> SleepDay) list option"
  steps :: "(date \<times> StepDay) list option"
  weight :: "(date \<times> WeightReading) list option"

section \<open>Category projectors\<close>

definition String_number :: "host \<Rightarrow> number \<Rightarrow> string" where
  "String_number h x = numberToString (fractionToString h) x"

definition updateCalories :: "host \<Rightarrow> (date \<times> CaloriesDay) list option \<Rightarrow> unit action" where
  "updateCalories h readings =
     updateFrontMatterByField h readings (calorie_field (settings h))
       (\<lambda>e. String_number h (of_int (Math_round (energy e))))"

definition exerciseLine :: "ExerciseSession \<Rightarrow> string" where
  "exerciseLine session =
     (let exercise_name =
            (case map_of EXERCISE_TYPE_MAPPINGS (exerciseName session) of
               Some mapped \<Rightarrow> mapped
             | None \<Rightarrow> exerciseName session)
      in ''  - **'' @ durationFormatted session @ ''**: '' @ exercise_name @ [LF])"

definition updateExercise :: "host \<Rightarrow> (date \<times> ExerciseDay) list option \<Rightarrow> unit action" where
  "updateExercise h readings =
     (case readings of
        None \<Rightarrow> skip
      | Some rs \<Rightarrow>
          forEach rs (\<lambda>(date, days_exercise).
            (let exercise_list =
                   foldl (\<lambda>acc session. acc @ exerciseLine session) '''' (sessions days_exercise)
             in andThen
                  (replaceSection h date (exercise_list_section (settings h)) exercise_list False)
                  (\<lambda>u. (let total_exercise = totalDuration days_exercise / 60
                        in updateFrontMatter h date (exercise_field (settings h))
                             (String_number h (of_int (Math_round total_exercise))))))))"

definition renderTime :: "host \<Rightarrow> nat \<Rightarrow> string" where
  "renderTime h time =
     (let formatting =
            (if format_times (settings h) then ''HH:mm:ss'' else ''YYYY-MM-DD HH:mm:ss'')
      in momentUnixFormat h time formatting)"

definition generateTableFromData ::
  "host \<Rightarrow> (nat \<times> 'v) list \<Rightarrow> ('v \<Rightarrow> string) \<Rightarrow> string \<Rightarrow> string \<Rightarrow> string" where
  "generateTableFromData h readings selector header slug =
     (let new_table = [LF] @ ''| Time     | '' @ header @ '' |'' @ [LF];
          datum_length = length header;
          dashes_for_header = replicate datum_length CHR ''-'';
          new_table = new_table @ ''|----------|-'' @ dashes_for_header @ ''-|'' @ [LF];
          new_table =
            foldl (\<lambda>tbl (time, sample).
                     (let print_time = renderTime h time;
                          print_sample = padStart (length header) (selector sample)
                      in tbl @ ''| '' @ print_time @ '' | '' @ print_sample @ '' |'' @ [LF]))
                  new_table (ownEntries readings)
      in new_table @ ''^'' @ slug @ [LF, LF])"

definition updateDailyTables ::
  "host \<Rightarrow> (date \<times> (nat \<times> 'v) list) list option \<Rightarrow> string \<Rightarrow> ('v \<Rightarrow> string) \<Rightarrow> string
   \<Rightarrow> string \<Rightarrow> unit action" where
  "updateDailyTables h readings target_section selector header slug =
     (case readings of
        None \<Rightarrow> skip
      | Some rs \<Rightarrow>
          forEach rs (\<lambda>(date, samples).
            (let new_table = generateTableFromData h samples selector header slug
             in replaceSection h date target_section new_table True)))"

definition updateHeartrate ::
  "host \<Rightarrow> (date \<times> HeartRateReadingDay) list option \<Rightarrow> unit action" where
  "updateHeartrate h readings =
     updateDailyTables h readings (heartrate_section (settings h))
       (\<lambda>e. String_number h (bpm e)) ''BPM'' ''heartrate''"

definition updateHydration :: "host \<Rightarrow> (date \<times> HydrationDay) list option \<Rightarrow> unit action" where
  "updateHydration h readings =
     updateFrontMatterByField h readings (hydration_field (settings h))
       (\<lambda>e. String_number h (volume e))"

definition updateBloodOxygen ::
  "host \<Rightarrow> (date \<times> BloodOxygenReading) list option \<Rightarrow> unit action" where
  "updateBloodOxygen h readings =
     updateDailyTables h readings (blood_oxygen_section (settings h))
       (\<lambda>e. String_number h e) ''SpO2 %'' ''spo2''"

definition getStageKey :: "SleepStage \<Rightarrow> string" where
  "getStageKey formattedName = stageFormat formattedName"

text \<open>
  One turn of \<^verbatim>\<open>days_sleep.stage.forEach\<close>: the running total and the state, before
  and after a stage. The metadata write is not awaited.
\<close>

definition sleepStageStep :: "host \<Rightarrow> date \<Rightarrow> number \<times> state \<Rightarrow> SleepStage \<Rightarrow> number \<times> state" where
  "sleepStageStep h date acc stg =
     (case acc of (total_sleep_minutes, s) \<Rightarrow>
        (let front_matter_key = getStageKey stg
         in if stageFormat stg \<in> set UNCOUNTED_SLEEP_STAGES then (total_sleep_minutes, s)
            else
              (let sleep_minutes =
                     foldl (\<lambda>m session. m + duration session / 60) 0 (stageSessions stg)
               in (total_sleep_minutes + sleep_minutes,
                   snd (notAwaited
                          (updateFrontMatter h date front_matter_key (String_number h sleep_minutes))
                          s)))))"

definition updateSleep :: "host \<Rightarrow> (date \<times> SleepDay) list option \<Rightarrow> unit action" where
  "updateSleep h readings =
     (case readings of
        None \<Rightarrow> skip
      | Some rs \<Rightarrow>
          forEach rs (\<lambda>(date, days_sleep).
            if date \<in> set IGNORED_DATES then skip
            else (\<lambda>s.
              (case foldl (sleepStageStep h date) (0, s) (stage days_sleep) of
                 (total_sleep_minutes, s') \<Rightarrow>
                   notAwaited
                     (updateFrontMatter h date (total_sleep_field (settings h))
                        (String_number h total_sleep_minutes)) s'))))"

definition updateSteps :: "host \<Rightarrow> (date \<times> StepDay) list option \<Rightarrow> unit action" where
  "updateSteps h readings =
     updateFrontMatterByField h readings (steps_field (settings h))
       (\<lambda>e. String_number h (count e))"

text \<open>
  \<^verbatim>\<open>String(Object.values(e).last())\<close>: the last value in enumeration order, and the
  text \<^verbatim>\<open>undefined\<close> when there is none.
\<close>

definition updateWeight :: "host \<Rightarrow> (date \<times> WeightReading) list option \<Rightarrow> unit action" where
  "updateWeight h readings =
     updateFrontMatterByField h readings (weight_field (settings h))
       (\<lambda>e. case ownEntries e of
               [] \<Rightarrow> ''undefined''
             | kv # kvs \<Rightarrow> String_number h (snd (last (kv # kvs))))"

section \<open>Summary flush and the run\<close>

definition summaryBlock :: "(string \<times> string) list \<Rightarrow> string" where
  "summaryBlock daily_summary =
     foldl (\<lambda>summary_text (field, val). summary_text @ ''**'' @ field @ ''**:: '' @ val @ [LF])
       [LF] daily_summary"

text \<open>The rewrite of each date's summary section is not awaited.\<close>

definition updateSummary :: "host \<Rightarrow> unit action" where
  "updateSummary h s =
     (if summary_section (settings h) = '''' then (Ok (), s)
      else
        forEach (summary s) (\<lambda>(date, daily_summary).
          notAwaited
            (replaceSection h date (summary_section (settings h)) (summaryBlock daily_summary)
               False)) s)"

text \<open>
  \<^verbatim>\<open>runSync\<close>, from the fetched sensor data on: \<open>None\<close> is the \<^verbatim>\<open>null\<close> of a fetch
  that brought nothing. Every step is awaited.
\<close>

definition runSync :: "host \<Rightarrow> SensorData option \<Rightarrow> unit action" where
  "runSync h fetched =
     (case fetched of
        None \<Rightarrow> skip
      | Some sensorData \<Rightarrow>
          andThen (updateCalories h (calories sensorData)) (\<lambda>u.
          andThen (updateExercise h (exercise sensorData)) (\<lambda>u.
          andThen (updateHeartrate h (heart sensorData)) (\<lambda>u.
          andThen (updateHydration h (hydration sensorData)) (\<lambda>u.
          andThen (updateBloodOxygen h (oxygen sensorData)) (\<lambda>u.
          andThen (updateSleep h (sleep sensorData)) (\<lambda>u.
          andThen (updateSteps h (steps sensorData)) (\<lambda>u.
          andThen (updateWeight h (weight sensorData)) (\<lambda>u.
          updateSummary h)))))))))"

text \<open>\<^verbatim>\<open>onload\<close> sets the summary to the empty object; nothing else of it touches the
  state of the model.\<close>

definition onload :: "state \<Rightarrow> state" where
  "onload s = s\<lparr>summary := []\<rparr>"

section \<open>Vocabulary of the properties\<close>

subsection \<open>Tables\<close>

definition tableHead :: "string \<Rightarrow> string" where
  "tableHead header =
     [LF] @ ''| Time     | '' @ header @ '' |'' @ [LF]
     @ ''|----------|-'' @ replicate (length header) CHR ''-'' @ ''-|'' @ [LF]"

definition tableRow :: "host \<Rightarrow> ('v \<Rightarrow> string) \<Rightarrow> string \<Rightarrow> nat \<times> 'v \<Rightarrow> string" where
  "tableRow h selector header kv =
     ''| '' @ renderTime h (fst kv) @ '' | '' @ padStart (length header) (selector (snd kv))
     @ '' |'' @ [LF]"

subsection \<open>A host and a vault for the examples\<close>

text \<open>
  Daily notes are \<^verbatim>\<open>daily/YYYY-MM-DD.md\<close>; the date library prints a date in that
  format as the date itself and a key that is no date as \<^verbatim>\<open>Invalid date\<close>; a
  timestamp prints as its number of seconds; the storage layer refuses nothing. No example
  uses a heading that the model leaves to the engine.
\<close>

definition demoHost :: host where
  "demoHost =
     \<lparr> settings = DEFAULT_SETTINGS,
       daily_note_format = ''YYYY-MM-DD'',
       daily_note_folder = ''daily'',
       momentFormat = (\<lambda>d f. if d = ''lastSleep'' then ''Invalid date''
                               else if f = ''YYYY-MM-DD'' then d else f),
       momentUnixFormat = (\<lambda>t f. showNat t),
       fractionToString = (\<lambda>x. if x = 501 / 2 then ''250.5'' else ''?''),
       dailyNoteTemplate = (\<lambda>d. \<lparr>frontmatter = Map.empty, content = ''''\<rparr>),
       storageRefuses = (\<lambda>p. False),
       regExpOther = (\<lambda>heading. None) \<rparr>"

text \<open>A vault with the daily note of one date, and an empty summary.\<close>

definition demoText :: string where
  "demoText = ''intro'' @ [LF] @ ''# H'' @ [LF] @ ''old'' @ [LF] @ ''# N'' @ [LF] @ ''rest'' @ [LF]"

definition demoState :: state where
  "demoState =
     \<lparr> files = [''daily/2024-01-20.md'' \<mapsto> \<lparr>frontmatter = Map.empty, content = demoText\<rparr>],
       folders = [''daily''],
       summary = [] \<rparr>"

subsection \<open>Documents and their fields\<close>

text \<open>The path of the daily note of a date, and a metadata field of that note.\<close>

definition notePath :: "host \<Rightarrow> date \<Rightarrow> path" where
  "notePath h d = daily_note_folder h @ ''/'' @ momentFormat h d (daily_note_format h) @ ''.md''"

definition fieldOf :: "host \<Rightarrow> state \<Rightarrow> date \<Rightarrow> string \<Rightarrow> string option" where
  "fieldOf h s d f = (case files s (notePath h d) of None \<Rightarrow> None | Some n \<Rightarrow> frontmatter n f)"

subsection \<open>Sentinel keys\<close>

text \<open>An entry of a collection whose key is not a reserved sentinel.\<close>

definition notSentinel :: "date \<times> 'r \<Rightarrow> bool" where
  "notSentinel dr = (fst dr \<notin> set IGNORED_DATES)"

subsection \<open>Run summary\<close>

text \<open>
  A field recorded for a date in the summary; a state that keeps every field another
  state has recorded; an action that keeps what is recorded, whatever state it starts in.
\<close>

definition recorded :: "state \<Rightarrow> date \<Rightarrow> string \<Rightarrow> bool" where
  "recorded s d f = (case map_of (summary s) d of None \<Rightarrow> False | Some fs \<Rightarrow> map_of fs f \<noteq> None)"

definition keeps :: "state \<Rightarrow> state \<Rightarrow> bool" where
  "keeps s s' = (\<forall>d f. recorded s d f \<longrightarrow> recorded s' d f)"

definition keeping :: "'a action \<Rightarrow> bool" where
  "keeping a = (\<forall>s. keeps s (snd (a s)))"

text \<open>
  A vault whose one daily note holds the summary heading, sensor data with no collection,
  and the data of two runs: calories in the first, steps in the second, same date.
\<close>

definition summaryVault :: state where
  "summaryVault =
     \<lparr> files = [''daily/2024-01-20.md'' \<mapsto>
                 \<lparr>frontmatter = Map.empty, content = ''# Gezondheid'' @ [LF]\<rparr>],
       folders = [''daily''],
       summary = [] \<rparr>"

definition noData :: SensorData where
  "noData =
     \<lparr> calories = None, exercise = None, heart = None, hydration = None, oxygen = None,
       sleep = None, steps = None, weight = None \<rparr>"

definition firstRunData :: SensorData where
  "firstRunData = noData\<lparr>calories := Some [(''2024-01-20'', \<lparr>energy = 501 / 2\<rparr>)]\<rparr>"

definition secondRunData :: SensorData where
  "secondRunData = noData\<lparr>steps := Some [(''2024-01-20'', \<lparr>count = 8000\<rparr>)]\<rparr>"

text \<open>The state the first run leaves, as \<open>first_run\<close> below shows.\<close>

definition afterFirstRun :: state where
  "afterFirstRun =
     \<lparr> files = [''daily/2024-01-20.md'' \<mapsto>
                 \<lparr>frontmatter = [''Active Calories'' \<mapsto> ''251''],
                  content = ''# Gezondheid'' @ [LF] @ [LF] @ ''**Active Calories**:: 251'' @ [LF]\<rparr>],
       folders = [''daily''],
       summary = [(''2024-01-20'', [(''Active Calories'', ''251'')])] \<rparr>"

subsection \<open>Runs and rejections\<close>

text \<open>
  A host whose daily notes are \<^verbatim>\<open>daily/YYYY/YYYY-MM-DD.md\<close> and whose storage layer
  refuses to create the table note of 2024-01-20; a vault with the note of
  2024-01-21 only; sensor data with heart rates for both days and steps for the second;
  and the same data without the first day.
\<close>

definition yearHost :: host where
  "yearHost =
     demoHost
     \<lparr> daily_note_format := ''YYYY/YYYY-MM-DD'',
       momentFormat := (\<lambda>d f. if f = ''YYYY'' then take 4 d
                                else if f = ''YYYY-MM-DD'' then d
                                else if f = ''YYYY/YYYY-MM-DD'' then take 4 d @ ''/'' @ d
                                else f),
       storageRefuses := (\<lambda>p. p = ''daily/2024/tables/2024-01-20 Tables.md'') \<rparr>"

definition yearVault :: state where
  "yearVault =
     \<lparr> files = [''daily/2024/2024-01-21.md'' \<mapsto> \<lparr>frontmatter = Map.empty, content = ''''\<rparr>],
       folders = [''daily'', ''daily/2024''],
       summary = [] \<rparr>"

definition twoDays :: SensorData where
  "twoDays =
     noData
     \<lparr> heart := Some [(''2024-01-20'', [(100, \<lparr>bpm = 60\<rparr>)]), (''2024-01-21'', [(100, \<lparr>bpm = 61\<rparr>)])],
       steps := Some [(''2024-01-21'', \<lparr>count = 8000\<rparr>)] \<rparr>"

definition secondDayOnly :: SensorData where
  "secondDayOnly =
     noData
     \<lparr> heart := Some [(''2024-01-21'', [(100, \<lparr>bpm = 61\<rparr>)])],
       steps := Some [(''2024-01-21'', \<lparr>count = 8000\<rparr>)] \<rparr>"

text \<open>Sensor data with blood oxygen for the first day alone.\<close>

definition oxygenDay :: SensorData where
  "oxygenDay = noData\<lparr>oxygen := Some [(''2024-01-20'', [(100, 98)])]\<rparr>"

text \<open>The vault after the heart rates of the second day alone.\<close>

definition afterHeart :: state where
  "afterHeart =
     yearVault\<lparr>folders := ''daily/2024/tables'' # folders yearVault,
               files := (files yearVault)(''daily/2024/tables/2024-01-21 Tables.md'' \<mapsto>
                 \<lparr>frontmatter = Map.empty,
                  content = ''# Heartrate'' @ [LF] @ [LF] @ ''| Time     | BPM |'' @ [LF]
                    @ ''|----------|-----|'' @ [LF] @ ''| 100 |  61 |'' @ [LF]
                    @ ''^heartrate'' @ [LF, LF] @ [LF] @ ''# Blood Oxygen'' @ [LF, LF]\<rparr>)\<rparr>"

subsection \<open>Heading lines\<close>

text \<open>
  A line that matches a heading: it starts with one or more hashes, then a space and the
  heading, then spaces only up to its line feed. \<open>headingLinePrefix\<close> says that a text
  starts with such a line; \<open>hasHeadingLine\<close> that a text has one (\<open>bol\<close> says whether the
  place is the start of a line).
\<close>

definition headingLinePrefix :: "string \<Rightarrow> string \<Rightarrow> bool" where
  "headingLinePrefix heading s =
     (let afterHashes = dropWhile (\<lambda>c. c = CHR ''#'') s;
          afterName = dropWhile (\<lambda>c. c = CHR '' '') (drop (1 + length heading) afterHashes)
      in take 1 s = ''#''
         \<and> take (1 + length heading) afterHashes = CHR '' '' # heading
         \<and> take 1 afterName = [LF])"

fun anyHeadingLine :: "string \<Rightarrow> bool \<Rightarrow> string \<Rightarrow> bool" where
  "anyHeadingLine heading bol [] = (bol \<and> headingLinePrefix heading [])"
| "anyHeadingLine heading bol (c # cs) =
     ((bol \<and> headingLinePrefix heading (c # cs))
      \<or> anyHeadingLine heading (isLineTerminator c) cs)"

definition hasHeadingLine :: "string \<Rightarrow> string \<Rightarrow> bool" where
  "hasHeadingLine heading txt = anyHeadingLine heading True txt"

subsection \<open>Dollars in a section body\<close>

text \<open>
  A vault whose one daily note holds the exercise heading, and a day of exercise whose one
  session carries two dollars in its name.
\<close>

definition exerciseVault :: state where
  "exerciseVault =
     \<lparr> files = [''daily/2024-01-20.md'' \<mapsto>
                 \<lparr>frontmatter = Map.empty, content = ''# Oefening'' @ [LF]\<rparr>],
       folders = [''daily''],
       summary = [] \<rparr>"

definition dollarDay :: ExerciseDay where
  "dollarDay =
     \<lparr> sessions = [\<lparr>durationFormatted = ''0:10'', exerciseName = ''Padel $$''\<rparr>],
       totalDuration = 600 \<rparr>"

subsection \<open>Metadata writes\<close>






section \<open>Basic facts about the locator and the metadata merger\<close>

lemma andThen_Ok:
  "andThen f g s = (Ok y, s') \<longleftrightarrow> (\<exists>x s1. f s = (Ok x, s1) \<and> g x s1 = (Ok y, s'))"
  by (auto simp: andThen_def split: prod.splits result.splits)

lemma andThen_Threw:
  "f s = (Threw e, s1) \<Longrightarrow> andThen f g s = (Threw e, s1)"
  by (simp add: andThen_def)

lemma andThen_step:
  "f s = (Ok x, s1) \<Longrightarrow> andThen f g s = g x s1"
  by (simp add: andThen_def)

lemma dailyNotePathFor_plain:
  "dailyNotePathFor h d False s = (Ok (notePath h d), s)"
  by (simp add: dailyNotePathFor_def notePath_def Let_def)

lemma dailyNoteFor_existing:
  "files s (notePath h d) = Some n \<Longrightarrow> dailyNoteFor h d False s = (Ok (notePath h d), s)"
  by (simp add: dailyNoteFor_def andThen_step [OF dailyNotePathFor_plain])

lemma dailyNoteFor_plain_Ok:
  assumes "dailyNoteFor h d False s = (Ok p, s')"
  shows "p = notePath h d" and "files s' p \<noteq> None"
    and "\<And>q. q \<noteq> notePath h d \<Longrightarrow> files s' q = files s q"
    and "summary s' = summary s" and "folders s' = folders s"
  using assms
  by (auto simp: dailyNoteFor_def andThen_step [OF dailyNotePathFor_plain] createDailyNote_def
      Let_def notePath_def split: option.splits if_splits prod.splits)

lemma files_processFrontMatter:
  "files (processFrontMatter p f v s) q =
     (if q = p then map_option (\<lambda>n. n\<lparr>frontmatter := (frontmatter n)(f \<mapsto> v)\<rparr>) (files s p)
      else files s q)"
  by (simp add: processFrontMatter_def split: option.splits)

lemma files_storeToSummary [simp]: "files (storeToSummary d f v s) = files s"
  by (simp add: storeToSummary_def Let_def)

lemma updateFrontMatter_Ok:
  assumes "updateFrontMatter h d f v s = (Ok u, s')"
  shows "fieldOf h s' d f = Some v"
    and "\<And>q. q \<noteq> notePath h d \<Longrightarrow> files s' q = files s q"
proof -
  from assms obtain p s1 where loc: "dailyNoteFor h d False s = (Ok p, s1)"
    and s': "s' = storeToSummary d f v (processFrontMatter p f v s1)"
    by (auto simp: updateFrontMatter_def andThen_Ok)
  note facts = dailyNoteFor_plain_Ok [OF loc]
  from facts(1,2) s' show "fieldOf h s' d f = Some v"
    by (auto simp: fieldOf_def files_processFrontMatter)
  fix q assume "q \<noteq> notePath h d"
  with facts(1,3) s' show "files s' q = files s q"
    by (simp add: files_processFrontMatter)
qed

lemma byField_step:
  "updateFrontMatterByField h (Some ((d, r) # rs)) f sel s =
     (if d \<in> set IGNORED_DATES \<or> sel r = ''undefined''
      then updateFrontMatterByField h (Some rs) f sel s
      else (case updateFrontMatter h d f (sel r) s of
              (Ok u, s1) \<Rightarrow> updateFrontMatterByField h (Some rs) f sel s1
            | (Threw e, s1) \<Rightarrow> (Threw e, s1)))"
  by (simp add: updateFrontMatterByField_def skip_def Let_def split: prod.splits result.splits)

lemma byField_Nil: "updateFrontMatterByField h (Some []) f sel s = (Ok (), s)"
  by (simp add: updateFrontMatterByField_def)

lemma byField_other_files:
  assumes "updateFrontMatterByField h (Some rs) f sel s = (Ok u, s')"
    and "p \<notin> (\<lambda>dr. notePath h (fst dr)) ` set rs"
  shows "files s' p = files s p"
  using assms
proof (induction rs arbitrary: s)
  case Nil
  then show ?case by (simp add: byField_Nil)
next
  case (Cons dr rs)
  obtain d r where dr: "dr = (d, r)" by (cases dr)
  show ?case
  proof (cases "d \<in> set IGNORED_DATES \<or> sel r = ''undefined''")
    case True
    with Cons show ?thesis by (simp add: dr byField_step)
  next
    case False
    with Cons.prems(1) obtain u1 s1 where st: "updateFrontMatter h d f (sel r) s = (Ok u1, s1)"
      and rest: "updateFrontMatterByField h (Some rs) f sel s1 = (Ok u, s')"
      by (auto simp: dr byField_step split: prod.splits result.splits)
    from Cons.prems(2) have "p \<noteq> notePath h d" by (auto simp: dr)
    with updateFrontMatter_Ok(2) [OF st] have "files s1 p = files s p" by simp
    moreover from Cons.IH [OF rest] Cons.prems(2) have "files s' p = files s1 p" by simp
    ultimately show ?thesis by simp
  qed
qed

lemma byField_written:
  assumes "updateFrontMatterByField h (Some rs) f sel s = (Ok u, s')"
    and "distinct (map (\<lambda>dr. notePath h (fst dr)) rs)"
    and "(d, r) \<in> set rs" and "d \<notin> set IGNORED_DATES" and "sel r \<noteq> ''undefined''"
  shows "fieldOf h s' d f = Some (sel r)"
  using assms(1,2,3)
proof (induction rs arbitrary: s)
  case Nil
  then show ?case by simp
next
  case (Cons dr' rs)
  obtain d' r' where dr': "dr' = (d', r')" by (cases dr')
  from Cons.prems(2) have dist: "distinct (map (\<lambda>dr. notePath h (fst dr)) rs)"
    and fresh: "notePath h d' \<notin> (\<lambda>dr. notePath h (fst dr)) ` set rs" by (auto simp: dr')
  show ?case
  proof (cases "(d, r) = (d', r')")
    case True
    with Cons.prems(1) assms(4,5) obtain u1 s1
      where st: "updateFrontMatter h d f (sel r) s = (Ok u1, s1)"
      and rest: "updateFrontMatterByField h (Some rs) f sel s1 = (Ok u, s')"
      by (auto simp: dr' byField_step split: prod.splits result.splits)
    from byField_other_files [OF rest] fresh True
    have "files s' (notePath h d) = files s1 (notePath h d)" by simp
    with updateFrontMatter_Ok(1) [OF st] show ?thesis by (simp add: fieldOf_def)
  next
    case False
    with Cons.prems(3) have mem: "(d, r) \<in> set rs" by (auto simp: dr')
    from Cons.prems(1) obtain s1 where rest: "updateFrontMatterByField h (Some rs) f sel s1 = (Ok u, s')"
      by (auto simp: dr' byField_step split: prod.splits result.splits if_splits)
    from Cons.IH [OF rest dist mem] show ?thesis .
  qed
qed

lemma forEach_filter:
  assumes "\<And>x. x \<in> set xs \<Longrightarrow> \<not> P x \<Longrightarrow> body x = skip"
  shows "forEach xs body s = forEach (filter P xs) body s"
  using assms
proof (induction xs arbitrary: s)
  case Nil
  show ?case by simp
next
  case (Cons x xs)
  have ih: "\<And>t. forEach xs body t = forEach (filter P xs) body t"
    using Cons by simp
  show ?case
  proof (cases "P x")
    case True
    then show ?thesis by (auto simp: ih split: prod.splits result.splits)
  next
    case False
    with Cons.prems have "body x = skip" by simp
    with False show ?thesis by (simp add: skip_def ih)
  qed
qed

lemma dailyNoteFor_created:
  assumes "files s (notePath h d) = None" and "create_daily_notes (settings h)"
    and "\<not> storageRefuses h (notePath h d)"
  shows "dailyNoteFor h d False s
         = (Ok (notePath h d), s\<lparr>files := (files s)(notePath h d \<mapsto> dailyNoteTemplate h d)\<rparr>)"
  using assms
  by (simp add: dailyNoteFor_def andThen_step [OF dailyNotePathFor_plain] createDailyNote_def
      Let_def notePath_def)

lemma plain_headings:
  "plainHeading ''H''" "plainHeading ''Gezondheid''" "plainHeading ''Oefening''"
  "plainHeading ''Heartrate''" "plainHeading ''Blood Oxygen''"
  by (simp_all add: plainHeading_def)

lemma replaceSection_plain:
  "plainHeading heading \<Longrightarrow>
   replaceSection h date heading body tbl =
     (if heading = '''' then skip
      else
        andThen (dailyNoteFor h date tbl) (\<lambda>target_file s.
          (let txt = vaultRead s target_file
           in if \<not> section_test heading txt then (Ok (), s)
              else (Ok (), vaultModify target_file
                             (section_replace heading txt
                                (''$1'' @ stringReplace body ''$'' ''$$'' @ ''$2'')) s))))"
  by (simp add: replaceSection_def sectionRegExp_def Let_def cong: if_cong)

lemma replaceSection_located:
  assumes "dailyNoteFor h d tbl s = (Ok p, s1)" and "heading \<noteq> ''''" and "plainHeading heading"
  shows "replaceSection h d heading body tbl s =
     (if \<not> section_test heading (vaultRead s1 p) then (Ok (), s1)
      else (Ok (), vaultModify p
              (section_replace heading (vaultRead s1 p)
                 (''$1'' @ stringReplace body ''$'' ''$$'' @ ''$2'')) s1))"
  using assms by (simp add: replaceSection_plain andThen_def Let_def)

lemma updateFrontMatter_existing:
  "files s (notePath h d) = Some n \<Longrightarrow>
   updateFrontMatter h d f v s
   = (Ok (), storeToSummary d f v (processFrontMatter (notePath h d) f v s))"
  by (simp add: updateFrontMatter_def andThen_def dailyNoteFor_existing)

subsection \<open>The example host\<close>

lemma demo_host_facts:
  "create_daily_notes (settings demoHost)"
  "exercise_list_section (settings demoHost) = ''Oefening''"
  "summary_section (settings demoHost) = ''Gezondheid''"
  "tables_subfolder (settings demoHost) = ''tables''"
  "heartrate_section (settings demoHost) = ''Heartrate''"
  "storageRefuses demoHost p = False"
  "dailyNoteTemplate demoHost d = \<lparr>frontmatter = Map.empty, content = ''''\<rparr>"
  by (simp_all add: demoHost_def DEFAULT_SETTINGS_def)

lemma demo_fields:
  "calorie_field (settings demoHost) = ''Active Calories''"
  "hydration_field (settings demoHost) = ''mL Hydrated''"
  "steps_field (settings demoHost) = ''Steps''"
  "exercise_field (settings demoHost) = ''Exercise Minutes''"
  by (simp_all add: demoHost_def DEFAULT_SETTINGS_def)

section \<open>Facts about the matcher\<close>

lemma starThen_Some:
  "starThen cls k s = Some (taken, r)
   \<Longrightarrow> \<exists>rest. s = taken @ rest \<and> list_all cls taken \<and> k rest = Some r"
proof (induction s arbitrary: taken r)
  case Nil
  then show ?case by auto
next
  case (Cons c cs)
  show ?case
  proof (cases "cls c")
    case False
    with Cons.prems show ?thesis by auto
  next
    case True
    show ?thesis
    proof (cases "starThen cls k cs")
      case None
      with True Cons.prems show ?thesis by auto
    next
      case (Some tr)
      obtain t r' where tr: "tr = (t, r')" by (cases tr)
      with Some True Cons.prems have eq: "taken = c # t" "r = r'" by auto
      from Cons.IH [of t r'] Some tr obtain rest
        where "cs = t @ rest" "list_all cls t" "k rest = Some r'" by auto
      with eq True show ?thesis by auto
    qed
  qed
qed

lemma literalThen_Some:
  "literalThen lit k s = Some r \<Longrightarrow> take (length lit) s = lit \<and> k (drop (length lit) s) = Some r"
  by (auto simp: literalThen_def split: if_splits)

subsection \<open>The escaping step\<close>

lemma stringIndexOf_Some:
  "stringIndexOf str pat = Some pos \<Longrightarrow> take (length pat) (drop pos str) = pat"
proof (induction str arbitrary: pos)
  case Nil
  then show ?case by (simp split: if_splits)
next
  case (Cons c cs)
  show ?case
  proof (cases "take (length pat) (c # cs) = pat")
    case True
    with Cons.prems show ?thesis by simp
  next
    case False
    with Cons.prems obtain pos' where "stringIndexOf cs pat = Some pos'" and "pos = Suc pos'"
      by auto
    with Cons.IH show ?thesis by simp
  qed
qed

lemma escape_identity: "stringReplace body ''$'' ''$$'' = body"
proof (cases "stringIndexOf body ''$''")
  case None
  then show ?thesis by (simp add: stringReplace_def)
next
  case (Some pos)
  from stringIndexOf_Some [OF Some] have "take 1 (drop pos body) = ''$''" by simp
  then have "drop pos body = ''$'' @ drop (pos + 1) body"
    by (metis append_take_drop_id drop_drop add.commute)
  then have "take pos body @ ''$'' @ drop (pos + 1) body = body"
    by (metis append_take_drop_id)
  with Some show ?thesis by (simp add: stringReplace_def)
qed

subsection \<open>The example vault\<close>

lemma demo_located:
  "dailyNoteFor demoHost ''2024-01-20'' False demoState = (Ok ''daily/2024-01-20.md'', demoState)"
  using dailyNoteFor_existing [of demoState demoHost "''2024-01-20''"]
  by (simp add: demoState_def notePath_def demoHost_def)

lemma demo_read: "vaultRead demoState ''daily/2024-01-20.md'' = demoText"
  by (simp add: vaultRead_def demoState_def)

lemma replaceSection_demo:
  "replaceSection demoHost ''2024-01-20'' ''H'' body False demoState
   = (Ok (), vaultModify ''daily/2024-01-20.md''
               (section_replace ''H'' demoText (''$1'' @ stringReplace body ''$'' ''$$'' @ ''$2''))
               demoState)"
proof -
  have "section_test ''H'' demoText"
    by (simp add: regexTest_def section_exec_def sectionAt_def literalThen_def boundary_def
        isLineTerminator_def demoText_def)
  then show ?thesis
    by (simp add: replaceSection_located [OF demo_located] plain_headings demo_read)
qed

section \<open>Properties: the sensor URL\<close>

lemma endsWith_append_slash: "endsWith (u @ ''/'') ''/''"
  by (simp add: endsWith_def)

lemma startsWith_prefixed: "startsWith (''sensor.'' @ n) ''sensor.''"
  by (simp add: startsWith_def)

text \<open>
  C10 (as amended). Take an instance URI \<open>u\<close> that does not end in a slash and a sensor
  name \<open>n\<close> that does not start with \<^verbatim>\<open>sensor.\<close>. Whether the settings give the URI as
  \<open>u\<close> or with one trailing slash, and the sensor as \<open>n\<close> or with one leading
  \<^verbatim>\<open>sensor.\<close>, the URL is \<open>u\<close>, one slash, the path \<^verbatim>\<open>api/states/\<close>, one \<^verbatim>\<open>sensor.\<close>
  and \<open>n\<close>.
\<close>

theorem getSensorURL_one_slash_one_prefix:
  "\<not> endsWith u ''/'' \<and> \<not> startsWith n ''sensor.'' \<longrightarrow>
     getSensorURL (cfg\<lparr>instance_uri := u, sensor := n\<rparr>) = u @ ''/api/states/sensor.'' @ n
     \<and> getSensorURL (cfg\<lparr>instance_uri := u @ ''/'', sensor := n\<rparr>)
       = u @ ''/api/states/sensor.'' @ n
     \<and> getSensorURL (cfg\<lparr>instance_uri := u, sensor := ''sensor.'' @ n\<rparr>)
       = u @ ''/api/states/sensor.'' @ n
     \<and> getSensorURL (cfg\<lparr>instance_uri := u @ ''/'', sensor := ''sensor.'' @ n\<rparr>)
       = u @ ''/api/states/sensor.'' @ n"
proof (intro impI conjI)
  assume a: "\<not> endsWith u ''/'' \<and> \<not> startsWith n ''sensor.''"
  show "getSensorURL (cfg\<lparr>instance_uri := u, sensor := n\<rparr>) = u @ ''/api/states/sensor.'' @ n"
    using a by (simp add: getSensorURL_def)
  show "getSensorURL (cfg\<lparr>instance_uri := u @ ''/'', sensor := n\<rparr>)
        = u @ ''/api/states/sensor.'' @ n"
    using a endsWith_append_slash [of u] by (simp add: getSensorURL_def)
  show "getSensorURL (cfg\<lparr>instance_uri := u, sensor := ''sensor.'' @ n\<rparr>)
        = u @ ''/api/states/sensor.'' @ n"
    using a startsWith_prefixed [of n] by (simp add: getSensorURL_def)
  show "getSensorURL (cfg\<lparr>instance_uri := u @ ''/'', sensor := ''sensor.'' @ n\<rparr>)
        = u @ ''/api/states/sensor.'' @ n"
    using endsWith_append_slash [of u] startsWith_prefixed [of n] by (simp add: getSensorURL_def)
qed

text \<open>
  The four ways of writing the URI \<^verbatim>\<open>http://h:8123\<close> and the sensor
  \<^verbatim>\<open>health_connect\<close>.
\<close>

theorem getSensorURL_one_slash_one_prefix_witness:
  "\<not> endsWith ''http://h:8123'' ''/'' \<and> \<not> startsWith ''health_connect'' ''sensor.''
   \<and> getSensorURL (DEFAULT_SETTINGS\<lparr>instance_uri := ''http://h:8123'', sensor := ''health_connect''\<rparr>)
     = ''http://h:8123/api/states/sensor.health_connect''
   \<and> getSensorURL (DEFAULT_SETTINGS\<lparr>instance_uri := ''http://h:8123/'', sensor := ''health_connect''\<rparr>)
     = ''http://h:8123/api/states/sensor.health_connect''
   \<and> getSensorURL (DEFAULT_SETTINGS\<lparr>instance_uri := ''http://h:8123'',
                                      sensor := ''sensor.health_connect''\<rparr>)
     = ''http://h:8123/api/states/sensor.health_connect''
   \<and> getSensorURL (DEFAULT_SETTINGS\<lparr>instance_uri := ''http://h:8123/'',
                                      sensor := ''sensor.health_connect''\<rparr>)
     = ''http://h:8123/api/states/sensor.health_connect''"
  using getSensorURL_one_slash_one_prefix [of "''http://h:8123''" "''health_connect''" DEFAULT_SETTINGS]
  by (simp add: endsWith_def startsWith_def)

text \<open>
  C10 as stated fails where the settings carry the slash or the prefix twice: the code
  adds what is missing and strips nothing, so both slashes and both prefixes stay.
\<close>

theorem sensor_url_doubled_counterexample:
  "getSensorURL (DEFAULT_SETTINGS\<lparr>instance_uri := ''http://h//'', sensor := ''sensor.sensor.x''\<rparr>)
   = ''http://h//api/states/sensor.sensor.x''"
  by (simp add: getSensorURL_def endsWith_def startsWith_def)

section \<open>Properties: table rendering\<close>

lemma foldl_append_map: "foldl (\<lambda>acc x. acc @ f x) acc xs = acc @ concat (map f xs)"
  by (induction xs arbitrary: acc) simp_all

lemma generateTableFromData_rows:
  "generateTableFromData h readings selector header slug
   = tableHead header @ concat (map (tableRow h selector header) (ownEntries readings))
     @ ''^'' @ slug @ [LF, LF]"
proof -
  have step:
    "(\<lambda>tbl (t, sample).
        (let print_time = renderTime h t;
             print_sample = padStart (length header) (selector sample)
         in tbl @ ''| '' @ print_time @ '' | '' @ print_sample @ '' |'' @ [LF]))
     = (\<lambda>tbl kv. tbl @ tableRow h selector header kv)"
    by (auto simp: fun_eq_iff tableRow_def Let_def)
  show ?thesis
    apply (simp only: generateTableFromData_def step)
    apply (simp add: Let_def foldl_append_map tableHead_def)
    done
qed

lemma ownEntries_index:
  assumes "list_all (\<lambda>kv. isArrayIndex (fst kv)) readings"
  shows "ownEntries readings = sort_key fst readings"
proof -
  from assms have "filter (\<lambda>kv. isArrayIndex (fst kv)) readings = readings"
    by (simp add: filter_id_conv list_all_iff)
  moreover from assms have "filter (\<lambda>kv. \<not> isArrayIndex (fst kv)) readings = []"
    by (simp add: filter_empty_conv list_all_iff)
  ultimately show ?thesis by (simp add: ownEntries_def)
qed

text \<open>
  C9 (as amended). For every sample mapping whose timestamps are array indices (below
  \<open>2\<^sup>3\<^sup>2 - 1\<close>, as seconds since the epoch are until the year 2106), the rendered
  table is the two header lines, one row per sample in ascending order of timestamp, and
  the anchor line \<^verbatim>\<open>^slug\<close> followed by an empty line.
\<close>

theorem generateTableFromData_ascending:
  assumes "list_all (\<lambda>kv. isArrayIndex (fst kv)) readings"
  shows "generateTableFromData h readings selector header slug
           = tableHead header
             @ concat (map (tableRow h selector header) (sort_key fst readings))
             @ ''^'' @ slug @ [LF, LF]
         \<and> sorted (map fst (sort_key fst readings))
         \<and> set (sort_key fst readings) = set readings
         \<and> length (sort_key fst readings) = length readings"
  using generateTableFromData_rows [of h readings selector header slug]
    ownEntries_index [OF assms] by simp

text \<open>
  The mapping \<^verbatim>\<open>{200: {bpm: 65}, 100: {bpm: 60}}\<close>, with the host printing a
  timestamp as its number of seconds: two rows, 100 before 200, then the anchor.
\<close>

theorem generateTableFromData_ascending_witness:
  "list_all (\<lambda>kv. isArrayIndex (fst kv)) [(200, \<lparr>bpm = 65\<rparr>), (100::nat, \<lparr>bpm = 60\<rparr>)]
   \<and> generateTableFromData demoHost [(200, \<lparr>bpm = 65\<rparr>), (100, \<lparr>bpm = 60\<rparr>)]
        (\<lambda>e. String_number demoHost (bpm e)) ''BPM'' ''heartrate''
      = [LF] @ ''| Time     | BPM |'' @ [LF]
        @ ''|----------|-----|'' @ [LF]
        @ ''| 100 |  60 |'' @ [LF]
        @ ''| 200 |  65 |'' @ [LF]
        @ ''^heartrate'' @ [LF, LF]"
proof -
  let ?rs = "[(200, \<lparr>bpm = 65\<rparr>), (100::nat, \<lparr>bpm = 60\<rparr>)]"
  have idx: "list_all (\<lambda>kv. isArrayIndex (fst kv)) ?rs" by (simp add: isArrayIndex_def)
  have "tableHead ''BPM''
          @ concat (map (tableRow demoHost (\<lambda>e. String_number demoHost (bpm e)) ''BPM'')
                      (sort_key fst ?rs))
          @ ''^'' @ ''heartrate'' @ [LF, LF]
      = [LF] @ ''| Time     | BPM |'' @ [LF]
        @ ''|----------|-----|'' @ [LF]
        @ ''| 100 |  60 |'' @ [LF]
        @ ''| 200 |  65 |'' @ [LF]
        @ ''^heartrate'' @ [LF, LF]"
    by (simp add: tableHead_def tableRow_def renderTime_def demoHost_def
        String_number_def numberToString_def showInt_def showNat.simps digitChar_def padStart_def)
  with idx generateTableFromData_ascending [OF idx, of demoHost
      "\<lambda>e. String_number demoHost (bpm e)" "''BPM''" "''heartrate''"]
  show ?thesis by simp
qed

text \<open>
  C9 as stated fails for timestamps from \<open>2\<^sup>3\<^sup>2 - 1\<close> on: they are enumerated in
  creation order. For \<^verbatim>\<open>{5000000000: {bpm: 65}, 4999999999: {bpm: 60}}\<close> the row of
  the later sample comes first.
\<close>

theorem table_order_counterexample:
  "generateTableFromData demoHost
     [(5000000000, \<lparr>bpm = 65\<rparr>), (4999999999, \<lparr>bpm = 60\<rparr>)]
     (\<lambda>e. String_number demoHost (bpm e)) ''BPM'' ''heartrate''
   = [LF] @ ''| Time     | BPM |'' @ [LF]
     @ ''|----------|-----|'' @ [LF]
     @ ''| 5000000000 |  65 |'' @ [LF]
     @ ''| 4999999999 |  60 |'' @ [LF]
     @ ''^heartrate'' @ [LF, LF]"
  by (simp add: generateTableFromData_def ownEntries_def isArrayIndex_def renderTime_def demoHost_def
        String_number_def numberToString_def showInt_def showNat.simps digitChar_def padStart_def)

section \<open>Properties: scalar categories\<close>

lemma Math_round_nearest: "\<bar>of_int (Math_round x) - x\<bar> \<le> 1 / 2"
  unfolding Math_round_def by linarith

lemma byField_written':
  assumes "fst (updateFrontMatterByField h (Some rs) f sel s) = Ok u"
    and "distinct (map (\<lambda>dr. notePath h (fst dr)) rs)"
    and "(d, r) \<in> set rs" and "d \<notin> set IGNORED_DATES" and "sel r \<noteq> ''undefined''"
  shows "fieldOf h (snd (updateFrontMatterByField h (Some rs) f sel s)) d f = Some (sel r)"
  using byField_written [of h rs f sel s u "snd (updateFrontMatterByField h (Some rs) f sel s)" d r]
    assms by (simp add: prod_eq_iff)

text \<open>
  C5 (as amended). After a scalar projector has run through its collection without a
  rejection, the dates of the collection having different notes: for every date of the
  collection that is no sentinel, the calories field of its note holds the energy rounded
  to the nearest whole number (a tie going up), printed; the hydration field holds the
  volume as the language prints it, and the steps field the count as the language prints
  it, neither of them rounded. (The projectors skip a value whose text is
  \<^verbatim>\<open>undefined\<close>.)
\<close>

theorem scalar_values_written:
  "(fst (updateCalories h (Some cs) s) = Ok u \<and> distinct (map (\<lambda>dr. notePath h (fst dr)) cs)
      \<and> (d, c) \<in> set cs \<and> d \<notin> set IGNORED_DATES
      \<and> String_number h (of_int (Math_round (energy c))) \<noteq> ''undefined''
    \<longrightarrow> fieldOf h (snd (updateCalories h (Some cs) s)) d (calorie_field (settings h))
          = Some (String_number h (of_int (Math_round (energy c))))
        \<and> \<bar>of_int (Math_round (energy c)) - energy c\<bar> \<le> 1 / 2)
   \<and> (fst (updateHydration h (Some hs) s) = Ok u \<and> distinct (map (\<lambda>dr. notePath h (fst dr)) hs)
      \<and> (d, v) \<in> set hs \<and> d \<notin> set IGNORED_DATES
      \<and> String_number h (volume v) \<noteq> ''undefined''
    \<longrightarrow> fieldOf h (snd (updateHydration h (Some hs) s)) d (hydration_field (settings h))
          = Some (String_number h (volume v)))
   \<and> (fst (updateSteps h (Some ss) s) = Ok u \<and> distinct (map (\<lambda>dr. notePath h (fst dr)) ss)
      \<and> (d, n) \<in> set ss \<and> d \<notin> set IGNORED_DATES
      \<and> String_number h (count n) \<noteq> ''undefined''
    \<longrightarrow> fieldOf h (snd (updateSteps h (Some ss) s)) d (steps_field (settings h))
          = Some (String_number h (count n)))"
proof (intro conjI impI)
  assume a: "fst (updateCalories h (Some cs) s) = Ok u \<and> distinct (map (\<lambda>dr. notePath h (fst dr)) cs)
      \<and> (d, c) \<in> set cs \<and> d \<notin> set IGNORED_DATES
      \<and> String_number h (of_int (Math_round (energy c))) \<noteq> ''undefined''"
  then show "fieldOf h (snd (updateCalories h (Some cs) s)) d (calorie_field (settings h))
          = Some (String_number h (of_int (Math_round (energy c))))"
    unfolding updateCalories_def
    using byField_written' [of h cs "calorie_field (settings h)"
        "\<lambda>e. String_number h (of_int (Math_round (energy e)))" s u d c] by simp
  show "\<bar>of_int (Math_round (energy c)) - energy c\<bar> \<le> 1 / 2" by (rule Math_round_nearest)
next
  assume "fst (updateHydration h (Some hs) s) = Ok u \<and> distinct (map (\<lambda>dr. notePath h (fst dr)) hs)
      \<and> (d, v) \<in> set hs \<and> d \<notin> set IGNORED_DATES
      \<and> String_number h (volume v) \<noteq> ''undefined''"
  then show "fieldOf h (snd (updateHydration h (Some hs) s)) d (hydration_field (settings h))
          = Some (String_number h (volume v))"
    unfolding updateHydration_def
    using byField_written' [of h hs "hydration_field (settings h)"
        "\<lambda>e. String_number h (volume e)" s u d v] by simp
next
  assume "fst (updateSteps h (Some ss) s) = Ok u \<and> distinct (map (\<lambda>dr. notePath h (fst dr)) ss)
      \<and> (d, n) \<in> set ss \<and> d \<notin> set IGNORED_DATES
      \<and> String_number h (count n) \<noteq> ''undefined''"
  then show "fieldOf h (snd (updateSteps h (Some ss) s)) d (steps_field (settings h))
          = Some (String_number h (count n))"
    unfolding updateSteps_def
    using byField_written' [of h ss "steps_field (settings h)"
        "\<lambda>e. String_number h (count e)" s u d n] by simp
qed

lemma demo_note: "files demoState (notePath demoHost ''2024-01-20'') \<noteq> None"
  by (simp add: demoState_def notePath_def demoHost_def)

lemma floor_half: "\<lfloor>(501::rat) / 2\<rfloor> = 250"
  by (simp add: floor_eq_iff)

lemma str_round: "String_number demoHost (of_int (Math_round (501 / 2))) = ''251''"
proof -
  have "Math_round (501 / 2) = 251" by (simp add: Math_round_def)
  then show ?thesis
    by (simp add: String_number_def numberToString_def showInt_def showNat.simps digitChar_def)
qed

lemma str_frac: "String_number demoHost (501 / 2) = ''250.5''"
  unfolding String_number_def numberToString_def
  by (simp only: floor_half) (simp add: demoHost_def)

lemma demo_byField_ok:
  "sel r \<noteq> ''undefined'' \<Longrightarrow>
   fst (updateFrontMatterByField demoHost (Some [(''2024-01-20'', r)]) f sel demoState) = Ok ()"
  using demo_note
  by (auto simp: byField_step byField_Nil IGNORED_DATES_def updateFrontMatter_def
      dailyNoteFor_existing andThen_def split: prod.splits result.splits)

text \<open>
  C5 as stated fails for hydration (and, in the same way, steps): a volume of 250.5 is
  written as \<^verbatim>\<open>250.5\<close>, where the nearest whole unit prints as \<^verbatim>\<open>251\<close>.
\<close>

theorem hydration_not_rounded_counterexample:
  "fieldOf demoHost
     (snd (updateHydration demoHost (Some [(''2024-01-20'', \<lparr>volume = 501 / 2\<rparr>)]) demoState))
     ''2024-01-20'' ''mL Hydrated'' = Some ''250.5''
   \<and> String_number demoHost (of_int (Math_round (501 / 2))) = ''251''"
proof -
  have "fst (updateHydration demoHost (Some [(''2024-01-20'', \<lparr>volume = 501 / 2\<rparr>)]) demoState) = Ok ()"
    unfolding updateHydration_def by (rule demo_byField_ok) (simp add: str_frac)
  then have "fieldOf demoHost
     (snd (updateHydration demoHost (Some [(''2024-01-20'', \<lparr>volume = 501 / 2\<rparr>)]) demoState))
     ''2024-01-20'' (hydration_field (settings demoHost)) = Some (String_number demoHost (501 / 2))"
    unfolding updateHydration_def
    using byField_written' [of demoHost "[(''2024-01-20'', \<lparr>volume = 501 / 2\<rparr>)]"
        "hydration_field (settings demoHost)" "\<lambda>e. String_number demoHost (volume e)" demoState "()"
        "''2024-01-20''" "\<lparr>volume = 501 / 2\<rparr>"]
    by (simp add: IGNORED_DATES_def str_frac)
  then show ?thesis by (simp add: str_frac str_round demo_fields)
qed


lemma str_8000: "String_number demoHost 8000 = ''8000''"
  by (simp add: String_number_def numberToString_def showInt_def showNat.simps digitChar_def)

text \<open>One date, with energy 250.5, volume 250.5 and 8000 steps.\<close>

theorem scalar_values_written_witness:
  "fst (updateCalories demoHost (Some [(''2024-01-20'', \<lparr>energy = 501 / 2\<rparr>)]) demoState) = Ok ()
   \<and> fieldOf demoHost
        (snd (updateCalories demoHost (Some [(''2024-01-20'', \<lparr>energy = 501 / 2\<rparr>)]) demoState))
        ''2024-01-20'' ''Active Calories'' = Some ''251''
   \<and> fst (updateHydration demoHost (Some [(''2024-01-20'', \<lparr>volume = 501 / 2\<rparr>)]) demoState) = Ok ()
   \<and> fieldOf demoHost
        (snd (updateHydration demoHost (Some [(''2024-01-20'', \<lparr>volume = 501 / 2\<rparr>)]) demoState))
        ''2024-01-20'' ''mL Hydrated'' = Some ''250.5''
   \<and> fst (updateSteps demoHost (Some [(''2024-01-20'', \<lparr>count = 8000\<rparr>)]) demoState) = Ok ()
   \<and> fieldOf demoHost
        (snd (updateSteps demoHost (Some [(''2024-01-20'', \<lparr>count = 8000\<rparr>)]) demoState))
        ''2024-01-20'' ''Steps'' = Some ''8000''"
proof -
  have c: "fst (updateCalories demoHost (Some [(''2024-01-20'', \<lparr>energy = 501 / 2\<rparr>)]) demoState) = Ok ()"
    unfolding updateCalories_def by (rule demo_byField_ok) (simp add: str_round)
  have h: "fst (updateHydration demoHost (Some [(''2024-01-20'', \<lparr>volume = 501 / 2\<rparr>)]) demoState) = Ok ()"
    unfolding updateHydration_def by (rule demo_byField_ok) (simp add: str_frac)
  have n: "fst (updateSteps demoHost (Some [(''2024-01-20'', \<lparr>count = 8000\<rparr>)]) demoState) = Ok ()"
    unfolding updateSteps_def by (rule demo_byField_ok) (simp add: str_8000)
  from c h n
    scalar_values_written [of demoHost "[(''2024-01-20'', \<lparr>energy = 501 / 2\<rparr>)]" demoState "()"
      "''2024-01-20''" "\<lparr>energy = 501 / 2\<rparr>" "[(''2024-01-20'', \<lparr>volume = 501 / 2\<rparr>)]"
      "\<lparr>volume = 501 / 2\<rparr>" "[(''2024-01-20'', \<lparr>count = 8000\<rparr>)]" "\<lparr>count = 8000\<rparr>"]
  show ?thesis
    by (simp add: IGNORED_DATES_def str_round str_frac str_8000 demo_fields)
qed

section \<open>Properties: sentinel keys\<close>

lemma byField_skips_sentinels:
  "updateFrontMatterByField h (Some rs) f sel
   = updateFrontMatterByField h (Some (filter notSentinel rs)) f sel"
proof
  fix s
  show "updateFrontMatterByField h (Some rs) f sel s
        = updateFrontMatterByField h (Some (filter notSentinel rs)) f sel s"
    unfolding updateFrontMatterByField_def option.case
    by (rule forEach_filter) (auto simp: notSentinel_def)
qed

lemma updateSleep_skips_sentinels:
  "updateSleep h (Some zs) = updateSleep h (Some (filter notSentinel zs))"
proof
  fix s
  show "updateSleep h (Some zs) s = updateSleep h (Some (filter notSentinel zs)) s"
    unfolding updateSleep_def option.case
    by (rule forEach_filter) (auto simp: notSentinel_def)
qed

text \<open>
  The loops that test the sentinel. The scalar projectors (calories, hydration, steps,
  weight) and the sleep projector skip every entry whose key is the reserved sentinel
  \<^verbatim>\<open>lastSleep\<close>: each of them does to the state, and returns, exactly what it does on
  the collection without those entries.
\<close>

lemma sentinel_keys_skipped:
  "updateCalories h (Some cs) = updateCalories h (Some (filter notSentinel cs))
   \<and> updateHydration h (Some hs) = updateHydration h (Some (filter notSentinel hs))
   \<and> updateSteps h (Some ss) = updateSteps h (Some (filter notSentinel ss))
   \<and> updateWeight h (Some ws) = updateWeight h (Some (filter notSentinel ws))
   \<and> updateSleep h (Some zs) = updateSleep h (Some (filter notSentinel zs))
   \<and> \<not> notSentinel (''lastSleep'', r)"
  unfolding updateCalories_def updateHydration_def updateSteps_def updateWeight_def
proof (intro conjI)
  show "\<not> notSentinel (''lastSleep'', r)" by (simp add: notSentinel_def IGNORED_DATES_def)
qed (rule byField_skips_sentinels updateSleep_skips_sentinels)+

lemma str_10: "String_number demoHost (of_int (Math_round 10)) = ''10''"
proof -
  have "Math_round 10 = 10" by (simp add: Math_round_def floor_eq_iff)
  then show ?thesis
    by (simp add: String_number_def numberToString_def showInt_def showNat.simps digitChar_def)
qed

text \<open>
  C3 at an exercise collection with an entry under the key \<^verbatim>\<open>lastSleep\<close>. The loop of
  the exercise projector (and, in the same way, the loop of the two table projectors)
  has no test for the sentinel: it locates a note for that key (the date library prints
  the key as \<^verbatim>\<open>Invalid date\<close>; the vault has no such note and it is created) and
  writes the exercise minutes into it.
\<close>

theorem exercise_uses_sentinel_key:
  "notePath demoHost ''lastSleep'' = ''daily/Invalid date.md''
   \<and> files demoState ''daily/Invalid date.md'' = None
   \<and> fieldOf demoHost
        (snd (updateExercise demoHost
                (Some [(''lastSleep'', \<lparr>sessions = [], totalDuration = 600\<rparr>)]) demoState))
        ''lastSleep'' ''Exercise Minutes'' = Some ''10''"
proof -
  have p: "notePath demoHost ''lastSleep'' = ''daily/Invalid date.md''"
    by (simp add: notePath_def demoHost_def)
  have absent: "files demoState ''daily/Invalid date.md'' = None"
    by (simp add: demoState_def)
  let ?s1 = "demoState\<lparr>files := (files demoState)(''daily/Invalid date.md'' \<mapsto> \<lparr>frontmatter = Map.empty, content = ''''\<rparr>)\<rparr>"
  have loc: "dailyNoteFor demoHost ''lastSleep'' False demoState = (Ok ''daily/Invalid date.md'', ?s1)"
    using dailyNoteFor_created [of demoState demoHost "''lastSleep''"] absent
    by (simp add: p demo_host_facts)
  have rs: "replaceSection demoHost ''lastSleep'' (exercise_list_section (settings demoHost)) [] False demoState
     = (Ok (), ?s1)"
    by (simp add: replaceSection_located [OF loc] plain_headings demo_host_facts vaultRead_def regexTest_def
        section_exec_def sectionAt_def)
  have w: "updateFrontMatter demoHost ''lastSleep'' ''Exercise Minutes'' ''10'' ?s1
        = (Ok (), storeToSummary ''lastSleep'' ''Exercise Minutes'' ''10''
                    (processFrontMatter ''daily/Invalid date.md'' ''Exercise Minutes'' ''10'' ?s1))"
    using updateFrontMatter_existing [of ?s1 demoHost "''lastSleep''" _ "''Exercise Minutes''" "''10''"]
    by (simp add: p)
  have "fieldOf demoHost
        (snd (updateExercise demoHost
                (Some [(''lastSleep'', \<lparr>sessions = [], totalDuration = 600\<rparr>)]) demoState))
        ''lastSleep'' ''Exercise Minutes'' = Some ''10''"
    using rs w
    by (simp add: updateExercise_def andThen_def Let_def str_10 demo_fields fieldOf_def p
        files_processFrontMatter)
  with p absent show ?thesis by simp
qed

section \<open>Properties: the run summary\<close>

lemma keeps_refl: "keeps s s"
  by (simp add: keeps_def)

lemma keeps_trans: "keeps s t \<Longrightarrow> keeps t u \<Longrightarrow> keeps s u"
  by (simp add: keeps_def)

lemma keeps_same_summary: "summary t = summary s \<Longrightarrow> keeps s t"
  by (simp add: keeps_def recorded_def)

lemma map_of_assign: "map_of (assign k v xs) k' = (if k' = k then Some v else map_of xs k')"
  by (induction xs) auto

lemma keeps_storeToSummary: "keeps s (storeToSummary d f v s)"
  by (auto simp: keeps_def recorded_def storeToSummary_def Let_def map_of_assign
      split: option.splits)

lemma keeping_andThen:
  assumes "keeping f" and "\<And>x. keeping (g x)"
  shows "keeping (andThen f g)"
  unfolding keeping_def
proof
  fix s
  show "keeps s (snd (andThen f g s))"
  proof (cases "f s")
    case (Pair r s1)
    from assms(1) Pair have k1: "keeps s s1" by (auto simp: keeping_def dest: spec [of _ s])
    show ?thesis
    proof (cases r)
      case (Ok x)
      from assms(2) [of x] have "keeps s1 (snd (g x s1))" by (simp add: keeping_def)
      with k1 Pair Ok show ?thesis by (auto simp: andThen_def intro: keeps_trans)
    next
      case (Threw e)
      with k1 Pair show ?thesis by (simp add: andThen_def)
    qed
  qed
qed

lemma keeping_forEach:
  assumes "\<And>x. keeping (body x)"
  shows "keeping (forEach xs body)"
  unfolding keeping_def
proof
  fix s
  show "keeps s (snd (forEach xs body s))"
  proof (induction xs arbitrary: s)
    case Nil
    show ?case by (simp add: keeps_refl)
  next
    case (Cons x xs)
    show ?case
    proof (cases "body x s")
      case (Pair r s1)
      from assms [of x] Pair have k1: "keeps s s1" by (auto simp: keeping_def dest: spec [of _ s])
      show ?thesis
      proof (cases r)
        case (Ok u)
        with Pair k1 Cons.IH [of s1] show ?thesis by (auto intro: keeps_trans)
      next
        case (Threw e)
        with Pair k1 show ?thesis by simp
      qed
    qed
  qed
qed

lemma keeping_notAwaited: "keeping f \<Longrightarrow> keeping (notAwaited f)"
  by (simp add: keeping_def notAwaited_def)

lemma keeping_skip: "keeping skip"
  by (simp add: keeping_def skip_def keeps_refl)

lemma summary_dailyNotePathFor: "summary (snd (dailyNotePathFor h d tbl s)) = summary s"
  by (simp add: dailyNotePathFor_def Let_def)

lemma summary_dailyNoteFor: "summary (snd (dailyNoteFor h d tbl s)) = summary s"
proof (cases "dailyNotePathFor h d tbl s")
  case (Pair r s1)
  with summary_dailyNotePathFor [of h d tbl s] have s1: "summary s1 = summary s" by simp
  show ?thesis
  proof (cases r)
    case (Threw e)
    with Pair s1 show ?thesis by (simp add: dailyNoteFor_def andThen_def)
  next
    case (Ok p)
    with Pair s1 show ?thesis
      by (simp add: dailyNoteFor_def andThen_def vaultCreate_def createDailyNote_def Let_def
          split: option.splits)
  qed
qed

lemma keeping_dailyNoteFor: "keeping (dailyNoteFor h d tbl)"
  unfolding keeping_def by (simp add: keeps_same_summary summary_dailyNoteFor)

lemma keeping_updateFrontMatter: "keeping (updateFrontMatter h d f v)"
  unfolding updateFrontMatter_def
proof (rule keeping_andThen [OF keeping_dailyNoteFor])
  fix p
  show "keeping (\<lambda>s. (Ok (), storeToSummary d f v (processFrontMatter p f v s)))"
    unfolding keeping_def
  proof
    fix s
    have "keeps s (processFrontMatter p f v s)"
      by (rule keeps_same_summary) (simp add: processFrontMatter_def split: option.splits)
    then show "keeps s (snd (Ok (), storeToSummary d f v (processFrontMatter p f v s)))"
      using keeps_storeToSummary keeps_trans by fastforce
  qed
qed

lemma keeping_replaceSection: "keeping (replaceSection h d heading body tbl)"
proof (cases "heading = ''''")
  case True
  then show ?thesis by (simp add: replaceSection_def keeping_skip)
next
  case False
  have "keeping (andThen (dailyNoteFor h d tbl) (\<lambda>target_file s.
          (let txt = vaultRead s target_file
           in case sectionRegExp h heading of
                None \<Rightarrow> (Threw (SyntaxError heading), s)
              | Some section_regex \<Rightarrow>
                  if \<not> regexTest section_regex txt then (Ok (), s)
                  else
                    (let new_section_content_escaped = stringReplace body ''$'' ''$$'';
                         new_content = regexReplace section_regex txt
                             (''$1'' @ new_section_content_escaped @ ''$2'')
                     in (Ok (), vaultModify target_file new_content s)))))"
  proof (rule keeping_andThen [OF keeping_dailyNoteFor])
    fix p
    show "keeping (\<lambda>s.
          (let txt = vaultRead s p
           in case sectionRegExp h heading of
                None \<Rightarrow> (Threw (SyntaxError heading), s)
              | Some section_regex \<Rightarrow>
                  if \<not> regexTest section_regex txt then (Ok (), s)
                  else
                    (let new_section_content_escaped = stringReplace body ''$'' ''$$'';
                         new_content = regexReplace section_regex txt
                             (''$1'' @ new_section_content_escaped @ ''$2'')
                     in (Ok (), vaultModify p new_content s))))"
      unfolding keeping_def
      by (auto intro!: keeps_same_summary simp: Let_def vaultModify_def split: option.splits)
  qed
  with False show ?thesis by (simp add: replaceSection_def)
qed

lemma keeping_byField: "keeping (updateFrontMatterByField h readings f sel)"
proof (cases readings)
  case None
  then show ?thesis by (simp add: updateFrontMatterByField_def keeping_skip)
next
  case (Some rs)
  have "keeping (forEach rs (\<lambda>(date, reading).
            if date \<in> set IGNORED_DATES then skip
            else (let val = sel reading
                  in if val \<noteq> ''undefined'' then updateFrontMatter h date f val
                     else skip)))"
    by (rule keeping_forEach) (auto simp: keeping_skip keeping_updateFrontMatter Let_def)
  with Some show ?thesis by (simp add: updateFrontMatterByField_def)
qed

lemma keeping_updateExercise: "keeping (updateExercise h readings)"
proof (cases readings)
  case None
  then show ?thesis by (simp add: updateExercise_def keeping_skip)
next
  case (Some rs)
  show ?thesis
    unfolding Some updateExercise_def option.case
    by (rule keeping_forEach)
      (auto simp: Let_def intro!: keeping_andThen keeping_replaceSection keeping_updateFrontMatter)
qed

lemma keeping_updateDailyTables: "keeping (updateDailyTables h readings sec sel header slug)"
proof (cases readings)
  case None
  then show ?thesis by (simp add: updateDailyTables_def keeping_skip)
next
  case (Some rs)
  show ?thesis
    unfolding Some updateDailyTables_def option.case
    by (rule keeping_forEach) (auto simp: Let_def intro!: keeping_replaceSection)
qed

lemma keeps_sleepStageStep:
  "keeps (snd acc) (snd (sleepStageStep h d acc stg))"
proof (cases acc)
  case (Pair total s)
  have "keeps s (snd (notAwaited (updateFrontMatter h d (getStageKey stg) v) s))" for v
    using keeping_notAwaited [OF keeping_updateFrontMatter] by (simp add: keeping_def)
  with Pair show ?thesis
    by (auto simp: sleepStageStep_def Let_def keeps_refl)
qed

lemma keeps_sleep_fold:
  "keeps (snd acc) (snd (foldl (sleepStageStep h d) acc stgs))"
proof (induction stgs arbitrary: acc)
  case Nil
  show ?case by (simp add: keeps_refl)
next
  case (Cons stg stgs)
  from keeps_sleepStageStep [of acc h d stg] Cons [of "sleepStageStep h d acc stg"]
  show ?case by (auto intro: keeps_trans)
qed

lemma keeping_updateSleep: "keeping (updateSleep h readings)"
proof (cases readings)
  case None
  then show ?thesis by (simp add: updateSleep_def keeping_skip)
next
  case (Some rs)
  have body: "keeping (\<lambda>s.
              (case foldl (sleepStageStep h d) (0, s) (stage z) of
                 (total_sleep_minutes, s') \<Rightarrow>
                   notAwaited
                     (updateFrontMatter h d (total_sleep_field (settings h))
                        (String_number h total_sleep_minutes)) s'))" for d z
    unfolding keeping_def
  proof
    fix s
    obtain t s' where f: "foldl (sleepStageStep h d) (0, s) (stage z) = (t, s')"
      by (cases "foldl (sleepStageStep h d) (0, s) (stage z)")
    from keeps_sleep_fold [of "(0, s)" h d "stage z"] f have "keeps s s'" by simp
    moreover have "keeps s' (snd (notAwaited (updateFrontMatter h d (total_sleep_field (settings h))
                        (String_number h t)) s'))"
      using keeping_notAwaited [OF keeping_updateFrontMatter] by (simp add: keeping_def)
    ultimately show "keeps s (snd (case foldl (sleepStageStep h d) (0, s) (stage z) of
                 (total_sleep_minutes, s') \<Rightarrow>
                   notAwaited
                     (updateFrontMatter h d (total_sleep_field (settings h))
                        (String_number h total_sleep_minutes)) s'))"
      using f by (auto intro: keeps_trans)
  qed
  show ?thesis
    unfolding Some updateSleep_def option.case
    by (rule keeping_forEach) (auto simp: keeping_skip body)
qed

lemma keeping_updateSummary: "keeping (updateSummary h)"
  unfolding keeping_def
proof
  fix s :: state
  have "keeping (forEach (summary s) (\<lambda>(date, daily_summary).
          notAwaited
            (replaceSection h date (summary_section (settings h)) (summaryBlock daily_summary)
               False)))"
    by (rule keeping_forEach) (auto intro!: keeping_notAwaited keeping_replaceSection)
  then show "keeps s (snd (updateSummary h s))"
    by (simp add: updateSummary_def keeping_def keeps_refl)
qed

lemma keeping_runSync: "keeping (runSync h fetched)"
proof (cases fetched)
  case None
  then show ?thesis by (simp add: runSync_def keeping_skip)
next
  case (Some sensorData)
  show ?thesis
    unfolding Some runSync_def option.case updateCalories_def updateHydration_def updateSteps_def
      updateWeight_def updateHeartrate_def updateBloodOxygen_def
    by (intro keeping_andThen keeping_byField keeping_updateExercise keeping_updateDailyTables
        keeping_updateSleep keeping_updateSummary)
qed

text \<open>
  C6 (as amended). The summary is emptied when the plugin loads and never afterwards: a
  field recorded for a date before a run is still recorded after the run, whatever the
  run fetched. So the summary that the second of two consecutive runs flushes holds the
  fields of the first run as well.
\<close>

theorem summary_never_discarded:
  "recorded s d f \<Longrightarrow> recorded (snd (runSync h fetched s)) d f"
  using keeping_runSync [of h fetched] by (simp add: keeping_def keeps_def)

lemma run1:
  "runSync demoHost (Some firstRunData) (onload summaryVault)
   = (Ok (), \<lparr> files = [''daily/2024-01-20.md'' \<mapsto>
                 \<lparr>frontmatter = [''Active Calories'' \<mapsto> ''251''],
                  content = ''# Gezondheid'' @ [LF] @ [LF] @ ''**Active Calories**:: 251'' @ [LF]\<rparr>],
       folders = [''daily''],
       summary = [(''2024-01-20'', [(''Active Calories'', ''251'')])] \<rparr>)"
  apply (simp add: runSync_def firstRunData_def noData_def onload_def summaryVault_def
      updateCalories_def updateExercise_def updateHeartrate_def updateHydration_def
      updateBloodOxygen_def updateSleep_def updateSteps_def updateWeight_def
      updateDailyTables_def updateFrontMatterByField_def andThen_def skip_def
      IGNORED_DATES_def str_round Let_def)
  apply (simp add: updateFrontMatter_existing notePath_def demoHost_def DEFAULT_SETTINGS_def
      processFrontMatter_def storeToSummary_def Let_def)
  apply (simp add: updateSummary_def notAwaited_def replaceSection_plain plain_headings andThen_def skip_def
      dailyNoteFor_def dailyNotePathFor_def Let_def vaultRead_def regexTest_def
      section_exec_def sectionAt_def literalThen_def boundary_def isLineTerminator_def
      regexReplace_def mkMatch_def stringReplace_def summaryBlock_def vaultModify_def
      captureText_def isDigit_def digitValue_def)
  done


lemma first_run: "runSync demoHost (Some firstRunData) (onload summaryVault) = (Ok (), afterFirstRun)"
  by (simp add: run1 afterFirstRun_def)

lemma second_run:
  "vaultRead (snd (runSync demoHost (Some secondRunData) afterFirstRun)) ''daily/2024-01-20.md''
   = ''# Gezondheid'' @ [LF] @ [LF] @ ''**Active Calories**:: 251'' @ [LF]
     @ ''**Steps**:: 8000'' @ [LF]"
  apply (simp add: runSync_def secondRunData_def noData_def afterFirstRun_def
      updateCalories_def updateExercise_def updateHeartrate_def updateHydration_def
      updateBloodOxygen_def updateSleep_def updateSteps_def updateWeight_def
      updateDailyTables_def updateFrontMatterByField_def andThen_def skip_def
      IGNORED_DATES_def str_8000 Let_def)
  apply (simp add: updateFrontMatter_existing notePath_def demoHost_def DEFAULT_SETTINGS_def
      processFrontMatter_def storeToSummary_def Let_def)
  apply (simp add: updateSummary_def notAwaited_def replaceSection_plain plain_headings andThen_def skip_def
      dailyNoteFor_def dailyNotePathFor_def Let_def vaultRead_def regexTest_def
      section_exec_def sectionAt_def literalThen_def boundary_def isLineTerminator_def
      regexReplace_def mkMatch_def stringReplace_def summaryBlock_def vaultModify_def
      captureText_def isDigit_def digitValue_def)
  done

text \<open>
  C6 as stated fails: the first run writes calories, the second run writes steps and no
  calories, and the summary section that the second run flushes into the note lists
  both fields.
\<close>

theorem summary_carried_over_counterexample:
  "steps secondRunData = Some [(''2024-01-20'', \<lparr>count = 8000\<rparr>)]
   \<and> calories secondRunData = None \<and> exercise secondRunData = None
   \<and> hydration secondRunData = None \<and> sleep secondRunData = None
   \<and> weight secondRunData = None
   \<and> vaultRead
        (snd (runSync demoHost (Some secondRunData)
                (snd (runSync demoHost (Some firstRunData) (onload summaryVault)))))
        ''daily/2024-01-20.md''
      = ''# Gezondheid'' @ [LF] @ [LF] @ ''**Active Calories**:: 251'' @ [LF]
        @ ''**Steps**:: 8000'' @ [LF]"
  using second_run by (simp add: first_run secondRunData_def noData_def)

text \<open>The calories field of the first run, through the second.\<close>

theorem summary_never_discarded_witness:
  "recorded afterFirstRun ''2024-01-20'' ''Active Calories''
   \<and> recorded (snd (runSync demoHost (Some secondRunData) afterFirstRun))
        ''2024-01-20'' ''Active Calories''"
proof -
  have r: "recorded afterFirstRun ''2024-01-20'' ''Active Calories''"
    by (simp add: recorded_def afterFirstRun_def)
  from r summary_never_discarded [OF r, of demoHost "Some secondRunData"] show ?thesis by simp
qed

section \<open>Properties: a document that cannot be created\<close>

lemma forEach_append:
  "forEach (xs @ ys) body s =
     (case forEach xs body s of
        (Ok u, s1) \<Rightarrow> forEach ys body s1
      | (Threw e, s1) \<Rightarrow> (Threw e, s1))"
  by (induction xs arbitrary: s) (auto split: prod.splits result.splits)

lemma replaceSection_rejected:
  "heading \<noteq> '''' \<Longrightarrow> dailyNoteFor h d tbl s = (Threw e, s')
   \<Longrightarrow> replaceSection h d heading body tbl s = (Threw e, s')"
  by (simp add: replaceSection_def andThen_def)

lemma year_paths:
  "dailyNotePathFor yearHost d True s =
     (if ''daily/'' @ take 4 d @ ''/tables'' \<in> set (folders s)
      then (Ok (''daily/'' @ take 4 d @ ''/tables/'' @ d @ '' Tables.md''), s)
      else (Ok (''daily/'' @ take 4 d @ ''/tables/'' @ d @ '' Tables.md''),
            s\<lparr>folders := (''daily/'' @ take 4 d @ ''/tables'') # folders s\<rparr>))"
  "notePath yearHost d = ''daily/'' @ take 4 d @ ''/'' @ d @ ''.md''"
  by (simp_all add: dailyNotePathFor_def notePath_def yearHost_def demoHost_def
      DEFAULT_SETTINGS_def Let_def)

lemma dailyNoteFor_table_refused:
  assumes "create_daily_notes (settings h)" and "tables_subfolder (settings h) \<noteq> ''''"
    and "dailyNotePathFor h d True s = (Ok p, s1)" and "files s1 p = None"
    and "storageRefuses h p"
  shows "dailyNoteFor h d True s = (Threw (CreateRejected p), s1)"
  using assms by (simp add: dailyNoteFor_def andThen_def vaultCreate_def)

lemma updateDailyTables_refused:
  assumes "updateDailyTables h (Some tpre) sec tsel header slug s = (Ok u, s1)"
    and "sec \<noteq> ''''"
    and "create_daily_notes (settings h)" and "tables_subfolder (settings h) \<noteq> ''''"
    and "dailyNotePathFor h d True s1 = (Ok p, s2)" and "files s2 p = None"
    and "storageRefuses h p"
  shows "updateDailyTables h (Some (tpre @ (d, samples) # trest)) sec tsel header slug s
         = (Threw (CreateRejected p), s2)"
proof -
  from assms(3-7) have "dailyNoteFor h d True s1 = (Threw (CreateRejected p), s2)"
    by (rule dailyNoteFor_table_refused)
  with assms(2)
  have "replaceSection h d sec (generateTableFromData h samples tsel header slug) True s1
        = (Threw (CreateRejected p), s2)"
    by (simp add: replaceSection_rejected)
  with assms(1) show ?thesis
    by (simp add: updateDailyTables_def forEach_append Let_def)
qed

text \<open>
  C1 (as amended). A table note that the storage layer refuses to create stops the run.
  The note of the date is absent and \<^verbatim>\<open>vault.create\<close> rejects at its path: then the
  locator rejects with that failure; the table projector that is at the date rejects
  with it, the dates before it done and the dates after it not looked at; and the run
  rejects with it while it is in the heart-rate step or in the blood-oxygen step, no
  later step started.
\<close>

theorem table_creation_failure_stops_run:
  "(create_daily_notes (settings h) \<and> tables_subfolder (settings h) \<noteq> ''''
      \<and> dailyNotePathFor h d True s = (Ok p, s1) \<and> files s1 p = None \<and> storageRefuses h p
    \<longrightarrow> dailyNoteFor h d True s = (Threw (CreateRejected p), s1))
   \<and> (updateDailyTables h (Some tpre) sec tsel header slug s = (Ok u, s1) \<and> sec \<noteq> ''''
      \<and> create_daily_notes (settings h) \<and> tables_subfolder (settings h) \<noteq> ''''
      \<and> dailyNotePathFor h d True s1 = (Ok p, s2) \<and> files s2 p = None \<and> storageRefuses h p
    \<longrightarrow> updateDailyTables h (Some (tpre @ (d, samples) # trest)) sec tsel header slug s
          = (Threw (CreateRejected p), s2))
   \<and> (updateCalories h (calories sensorData) s = (Ok u, sa)
      \<and> updateExercise h (exercise sensorData) sa = (Ok u, sb)
      \<and> heart sensorData = Some (hpre @ (d, hsamples) # hrest)
      \<and> updateHeartrate h (Some hpre) sb = (Ok u, s1)
      \<and> heartrate_section (settings h) \<noteq> ''''
      \<and> create_daily_notes (settings h) \<and> tables_subfolder (settings h) \<noteq> ''''
      \<and> dailyNotePathFor h d True s1 = (Ok p, s2) \<and> files s2 p = None \<and> storageRefuses h p
    \<longrightarrow> runSync h (Some sensorData) s = (Threw (CreateRejected p), s2))
   \<and> (updateCalories h (calories sensorData) s = (Ok u, sa)
      \<and> updateExercise h (exercise sensorData) sa = (Ok u, sb)
      \<and> updateHeartrate h (heart sensorData) sb = (Ok u, sc)
      \<and> updateHydration h (hydration sensorData) sc = (Ok u, sd)
      \<and> oxygen sensorData = Some (opre @ (d, osamples) # orest)
      \<and> updateBloodOxygen h (Some opre) sd = (Ok u, s1)
      \<and> blood_oxygen_section (settings h) \<noteq> ''''
      \<and> create_daily_notes (settings h) \<and> tables_subfolder (settings h) \<noteq> ''''
      \<and> dailyNotePathFor h d True s1 = (Ok p, s2) \<and> files s2 p = None \<and> storageRefuses h p
    \<longrightarrow> runSync h (Some sensorData) s = (Threw (CreateRejected p), s2))"
proof (intro conjI impI)
  assume "create_daily_notes (settings h) \<and> tables_subfolder (settings h) \<noteq> ''''
      \<and> dailyNotePathFor h d True s = (Ok p, s1) \<and> files s1 p = None \<and> storageRefuses h p"
  then show "dailyNoteFor h d True s = (Threw (CreateRejected p), s1)"
    by (simp add: dailyNoteFor_table_refused)
next
  assume "updateDailyTables h (Some tpre) sec tsel header slug s = (Ok u, s1) \<and> sec \<noteq> ''''
      \<and> create_daily_notes (settings h) \<and> tables_subfolder (settings h) \<noteq> ''''
      \<and> dailyNotePathFor h d True s1 = (Ok p, s2) \<and> files s2 p = None \<and> storageRefuses h p"
  then show "updateDailyTables h (Some (tpre @ (d, samples) # trest)) sec tsel header slug s
          = (Threw (CreateRejected p), s2)"
    using updateDailyTables_refused [of h tpre sec tsel header slug s u s1 d p s2] by blast
next
  assume a: "updateCalories h (calories sensorData) s = (Ok u, sa)
      \<and> updateExercise h (exercise sensorData) sa = (Ok u, sb)
      \<and> heart sensorData = Some (hpre @ (d, hsamples) # hrest)
      \<and> updateHeartrate h (Some hpre) sb = (Ok u, s1)
      \<and> heartrate_section (settings h) \<noteq> ''''
      \<and> create_daily_notes (settings h) \<and> tables_subfolder (settings h) \<noteq> ''''
      \<and> dailyNotePathFor h d True s1 = (Ok p, s2) \<and> files s2 p = None \<and> storageRefuses h p"
  then have "updateHeartrate h (Some (hpre @ (d, hsamples) # hrest)) sb
             = (Threw (CreateRejected p), s2)"
    unfolding updateHeartrate_def
    using updateDailyTables_refused [of h hpre _ _ _ _ sb u s1 d p s2] by blast
  with a show "runSync h (Some sensorData) s = (Threw (CreateRejected p), s2)"
    by (simp add: runSync_def andThen_def)
next
  assume a: "updateCalories h (calories sensorData) s = (Ok u, sa)
      \<and> updateExercise h (exercise sensorData) sa = (Ok u, sb)
      \<and> updateHeartrate h (heart sensorData) sb = (Ok u, sc)
      \<and> updateHydration h (hydration sensorData) sc = (Ok u, sd)
      \<and> oxygen sensorData = Some (opre @ (d, osamples) # orest)
      \<and> updateBloodOxygen h (Some opre) sd = (Ok u, s1)
      \<and> blood_oxygen_section (settings h) \<noteq> ''''
      \<and> create_daily_notes (settings h) \<and> tables_subfolder (settings h) \<noteq> ''''
      \<and> dailyNotePathFor h d True s1 = (Ok p, s2) \<and> files s2 p = None \<and> storageRefuses h p"
  then have "updateBloodOxygen h (Some (opre @ (d, osamples) # orest)) sd
             = (Threw (CreateRejected p), s2)"
    unfolding updateBloodOxygen_def
    using updateDailyTables_refused [of h opre _ _ _ _ sd u s1 d p s2] by blast
  with a show "runSync h (Some sensorData) s = (Threw (CreateRejected p), s2)"
    by (simp add: runSync_def andThen_def)
qed

lemma year_host_facts:
  "create_daily_notes (settings yearHost)"
  "tables_subfolder (settings yearHost) = ''tables''"
  "heartrate_section (settings yearHost) = ''Heartrate''"
  "blood_oxygen_section (settings yearHost) = ''Blood Oxygen''"
  "summary_section (settings yearHost) = ''Gezondheid''"
  "steps_field (settings yearHost) = ''Steps''"
  "storageRefuses yearHost p = (p = ''daily/2024/tables/2024-01-20 Tables.md'')"
  "dailyNoteTemplate yearHost d = \<lparr>frontmatter = Map.empty, content = ''''\<rparr>"
  "format_times (settings yearHost) = False"
  "momentUnixFormat yearHost t fmt = showNat t"
  by (simp_all add: yearHost_def demoHost_def DEFAULT_SETTINGS_def)

lemma year_vault_facts:
  "files yearVault
   = [''daily/2024/2024-01-21.md'' \<mapsto> \<lparr>frontmatter = Map.empty, content = ''''\<rparr>]"
  "folders yearVault = [''daily'', ''daily/2024'']"
  "summary yearVault = []"
  by (simp_all add: yearVault_def)

lemma year_refused_table:
  "dailyNoteFor yearHost ''2024-01-20'' True yearVault
   = (Threw (CreateRejected ''daily/2024/tables/2024-01-20 Tables.md''),
      yearVault\<lparr>folders := ''daily/2024/tables'' # folders yearVault\<rparr>)"
  by (simp add: dailyNoteFor_def andThen_def year_paths vaultCreate_def year_host_facts
      year_vault_facts)

lemma two_days_facts:
  "calories twoDays = None" "exercise twoDays = None"
  "heart twoDays
   = Some [(''2024-01-20'', [(100, \<lparr>bpm = 60\<rparr>)]), (''2024-01-21'', [(100, \<lparr>bpm = 61\<rparr>)])]"
  "hydration twoDays = None" "oxygen twoDays = None" "sleep twoDays = None"
  "steps twoDays = Some [(''2024-01-21'', \<lparr>count = 8000\<rparr>)]" "weight twoDays = None"
  by (simp_all add: twoDays_def noData_def)

lemma second_day_facts:
  "calories secondDayOnly = None" "exercise secondDayOnly = None"
  "heart secondDayOnly = Some [(''2024-01-21'', [(100, \<lparr>bpm = 61\<rparr>)])]"
  "hydration secondDayOnly = None" "oxygen secondDayOnly = None" "sleep secondDayOnly = None"
  "steps secondDayOnly = Some [(''2024-01-21'', \<lparr>count = 8000\<rparr>)]"
  "weight secondDayOnly = None"
  by (simp_all add: secondDayOnly_def noData_def)

lemma projector_None:
  "updateCalories h None = skip" "updateExercise h None = skip" "updateHeartrate h None = skip"
  "updateHydration h None = skip" "updateBloodOxygen h None = skip" "updateSleep h None = skip"
  "updateSteps h None = skip" "updateWeight h None = skip"
  by (simp_all add: updateCalories_def updateExercise_def updateHeartrate_def
      updateHydration_def updateBloodOxygen_def updateSleep_def updateSteps_def updateWeight_def
      updateFrontMatterByField_def updateDailyTables_def)

lemma heart_rejected:
  "updateHeartrate yearHost (heart twoDays) yearVault
   = (Threw (CreateRejected ''daily/2024/tables/2024-01-20 Tables.md''),
      yearVault\<lparr>folders := ''daily/2024/tables'' # folders yearVault\<rparr>)"
  by (simp add: two_days_facts updateHeartrate_def updateDailyTables_def Let_def
      year_host_facts replaceSection_rejected [OF _ year_refused_table])

lemma failing_run:
  "runSync yearHost (Some twoDays) yearVault
   = (Threw (CreateRejected ''daily/2024/tables/2024-01-20 Tables.md''),
      yearVault\<lparr>folders := ''daily/2024/tables'' # folders yearVault\<rparr>)"
  by (simp add: runSync_def andThen_def two_days_facts(1,2) projector_None skip_def heart_rejected)

lemma located_table:
  "dailyNoteFor yearHost ''2024-01-21'' True yearVault
   = (Ok ''daily/2024/tables/2024-01-21 Tables.md'',
      yearVault\<lparr>folders := ''daily/2024/tables'' # folders yearVault,
                files := (files yearVault)(''daily/2024/tables/2024-01-21 Tables.md'' \<mapsto>
                  \<lparr>frontmatter = Map.empty,
                   content = ''# Heartrate'' @ [LF, LF] @ ''# Blood Oxygen'' @ [LF, LF]\<rparr>)\<rparr>)"
  by (simp add: dailyNoteFor_def andThen_def year_paths vaultCreate_def year_host_facts
      year_vault_facts getTableNoteInitialContents_def)

lemma year_table:
  "generateTableFromData yearHost [(100, \<lparr>bpm = 61\<rparr>)] (\<lambda>e. String_number yearHost (bpm e))
     ''BPM'' ''heartrate''
   = [LF] @ ''| Time     | BPM |'' @ [LF] @ ''|----------|-----|'' @ [LF]
     @ ''| 100 |  61 |'' @ [LF] @ ''^heartrate'' @ [LF, LF]"
  by (simp add: generateTableFromData_def ownEntries_def isArrayIndex_def renderTime_def
      year_host_facts String_number_def numberToString_def showInt_def showNat.simps
      digitChar_def padStart_def)

lemma heart_accepted:
  "updateHeartrate yearHost (heart secondDayOnly) yearVault = (Ok (), afterHeart)"
  apply (simp add: second_day_facts updateHeartrate_def updateDailyTables_def Let_def
      year_host_facts replaceSection_located [OF located_table] plain_headings year_table)
  apply (simp add: vaultRead_def vaultModify_def regexTest_def
      section_exec_def sectionAt_def literalThen_def boundary_def isLineTerminator_def
      regexReplace_def mkMatch_def stringReplace_def
      captureText_def isDigit_def digitValue_def afterHeart_def)
  done

lemma after_heart_facts:
  "files afterHeart ''daily/2024/2024-01-21.md'' = Some \<lparr>frontmatter = Map.empty, content = ''''\<rparr>"
  "summary afterHeart = []"
  by (simp_all add: afterHeart_def year_vault_facts)

lemma passing_run_steps:
  "fieldOf yearHost (snd (runSync yearHost (Some secondDayOnly) yearVault)) ''2024-01-21'' ''Steps''
   = Some ''8000''"
proof -
  have p: "notePath yearHost ''2024-01-21'' = ''daily/2024/2024-01-21.md''"
    by (simp add: year_paths)
  have v: "String_number yearHost 8000 = ''8000''"
    by (simp add: String_number_def numberToString_def showInt_def showNat.simps digitChar_def)
  let ?s3 = "storeToSummary ''2024-01-21'' ''Steps'' ''8000''
               (processFrontMatter ''daily/2024/2024-01-21.md'' ''Steps'' ''8000'' afterHeart)"
  have st: "updateSteps yearHost (steps secondDayOnly) afterHeart = (Ok (), ?s3)"
    using updateFrontMatter_existing [of afterHeart yearHost "''2024-01-21''" _ "''Steps''" "''8000''"]
    by (simp add: second_day_facts updateSteps_def updateFrontMatterByField_def IGNORED_DATES_def
        v year_host_facts p after_heart_facts)
  have f3: "files ?s3 ''daily/2024/2024-01-21.md''
            = Some \<lparr>frontmatter = [''Steps'' \<mapsto> ''8000''], content = ''''\<rparr>"
    by (simp add: files_processFrontMatter after_heart_facts)
  have sm: "summary ?s3 = [(''2024-01-21'', [(''Steps'', ''8000'')])]"
    by (simp add: storeToSummary_def processFrontMatter_def after_heart_facts Let_def)
  have loc: "dailyNoteFor yearHost ''2024-01-21'' False ?s3 = (Ok ''daily/2024/2024-01-21.md'', ?s3)"
    using dailyNoteFor_existing [of ?s3 yearHost "''2024-01-21''"] f3 by (simp add: p)
  have fl: "updateSummary yearHost ?s3 = (Ok (), ?s3)"
    using f3
    by (simp add: updateSummary_def sm year_host_facts notAwaited_def
        replaceSection_located [OF loc] plain_headings vaultRead_def regexTest_def section_exec_def
        sectionAt_def)
  have "runSync yearHost (Some secondDayOnly) yearVault = (Ok (), ?s3)"
    using heart_accepted st fl
    by (simp add: runSync_def andThen_def second_day_facts(1,2,4,5,6,8) projector_None skip_def)
  with f3 show ?thesis by (simp add: fieldOf_def p)
qed

text \<open>
  C1 as stated fails. The table note of the first day cannot be created: the run rejects
  there, and the steps of the second day are never written. Without the first day in the
  data, they are.
\<close>

theorem creation_failure_counterexample:
  "fst (runSync yearHost (Some twoDays) yearVault)
     = Threw (CreateRejected ''daily/2024/tables/2024-01-20 Tables.md'')
   \<and> fieldOf yearHost (snd (runSync yearHost (Some twoDays) yearVault)) ''2024-01-21'' ''Steps''
       = None
   \<and> fieldOf yearHost (snd (runSync yearHost (Some secondDayOnly) yearVault)) ''2024-01-21''
         ''Steps''
       = Some ''8000''"
proof (intro conjI)
  show "fst (runSync yearHost (Some twoDays) yearVault)
          = Threw (CreateRejected ''daily/2024/tables/2024-01-20 Tables.md'')"
    by (simp add: failing_run)
  show "fieldOf yearHost (snd (runSync yearHost (Some twoDays) yearVault)) ''2024-01-21'' ''Steps''
          = None"
    by (simp add: failing_run fieldOf_def year_paths year_vault_facts)
  show "fieldOf yearHost (snd (runSync yearHost (Some secondDayOnly) yearVault)) ''2024-01-21''
          ''Steps'' = Some ''8000''"
    by (rule passing_run_steps)
qed

lemma year_table_path:
  "dailyNotePathFor yearHost ''2024-01-20'' True yearVault
   = (Ok ''daily/2024/tables/2024-01-20 Tables.md'',
      yearVault\<lparr>folders := ''daily/2024/tables'' # folders yearVault\<rparr>)"
  by (simp add: year_paths year_vault_facts)

lemma oxygen_day_facts:
  "calories oxygenDay = None" "exercise oxygenDay = None" "heart oxygenDay = None"
  "hydration oxygenDay = None"
  "oxygen oxygenDay = Some ([] @ (''2024-01-20'', [(100, 98)]) # [])"
  by (simp_all add: oxygenDay_def noData_def)

text \<open>
  The host refuses the table note of 2024-01-20, which the vault does not have. The
  locator rejects; the heart-rate projector rejects at that date, the first of two; the
  run of the counterexample rejects in its heart-rate step; and a run with blood oxygen
  for that date alone rejects in its blood-oxygen step.
\<close>

theorem table_creation_failure_stops_run_witness:
  "create_daily_notes (settings yearHost) \<and> tables_subfolder (settings yearHost) \<noteq> ''''
   \<and> heartrate_section (settings yearHost) \<noteq> ''''
   \<and> blood_oxygen_section (settings yearHost) \<noteq> ''''
   \<and> dailyNotePathFor yearHost ''2024-01-20'' True yearVault
       = (Ok ''daily/2024/tables/2024-01-20 Tables.md'',
          yearVault\<lparr>folders := ''daily/2024/tables'' # folders yearVault\<rparr>)
   \<and> files (yearVault\<lparr>folders := ''daily/2024/tables'' # folders yearVault\<rparr>)
        ''daily/2024/tables/2024-01-20 Tables.md'' = None
   \<and> storageRefuses yearHost ''daily/2024/tables/2024-01-20 Tables.md''
   \<and> dailyNoteFor yearHost ''2024-01-20'' True yearVault
       = (Threw (CreateRejected ''daily/2024/tables/2024-01-20 Tables.md''),
          yearVault\<lparr>folders := ''daily/2024/tables'' # folders yearVault\<rparr>)
   \<and> updateHeartrate yearHost (Some []) yearVault = (Ok (), yearVault)
   \<and> updateHeartrate yearHost
         (Some ([] @ (''2024-01-20'', [(100, \<lparr>bpm = 60\<rparr>)]) # [(''2024-01-21'', [(100, \<lparr>bpm = 61\<rparr>)])]))
         yearVault
       = (Threw (CreateRejected ''daily/2024/tables/2024-01-20 Tables.md''),
          yearVault\<lparr>folders := ''daily/2024/tables'' # folders yearVault\<rparr>)
   \<and> updateCalories yearHost (calories twoDays) yearVault = (Ok (), yearVault)
   \<and> updateExercise yearHost (exercise twoDays) yearVault = (Ok (), yearVault)
   \<and> runSync yearHost (Some twoDays) yearVault
       = (Threw (CreateRejected ''daily/2024/tables/2024-01-20 Tables.md''),
          yearVault\<lparr>folders := ''daily/2024/tables'' # folders yearVault\<rparr>)
   \<and> updateBloodOxygen yearHost (Some []) yearVault = (Ok (), yearVault)
   \<and> runSync yearHost (Some oxygenDay) yearVault
       = (Threw (CreateRejected ''daily/2024/tables/2024-01-20 Tables.md''),
          yearVault\<lparr>folders := ''daily/2024/tables'' # folders yearVault\<rparr>)"
proof -
  let ?p = "''daily/2024/tables/2024-01-20 Tables.md''"
  let ?v = "yearVault\<lparr>folders := ''daily/2024/tables'' # folders yearVault\<rparr>"
  note locator = table_creation_failure_stops_run [THEN conjunct1, rule_format]
  note tables = table_creation_failure_stops_run [THEN conjunct2, THEN conjunct1, rule_format]
  note heartRun = table_creation_failure_stops_run
      [THEN conjunct2, THEN conjunct2, THEN conjunct1, rule_format]
  note oxygenRun = table_creation_failure_stops_run
      [THEN conjunct2, THEN conjunct2, THEN conjunct2, rule_format]
  have absent: "files ?v ?p = None" by (simp add: year_vault_facts)
  have refused: "storageRefuses yearHost ?p" by (simp add: year_host_facts)
  have cfg: "create_daily_notes (settings yearHost)" "tables_subfolder (settings yearHost) \<noteq> ''''"
    "heartrate_section (settings yearHost) \<noteq> ''''" "blood_oxygen_section (settings yearHost) \<noteq> ''''"
    by (simp_all add: year_host_facts)
  have h0: "updateHeartrate yearHost (Some []) yearVault = (Ok (), yearVault)"
    by (simp add: updateHeartrate_def updateDailyTables_def)
  have o0: "updateBloodOxygen yearHost (Some []) yearVault = (Ok (), yearVault)"
    by (simp add: updateBloodOxygen_def updateDailyTables_def)
  have c0: "updateCalories yearHost (calories twoDays) yearVault = (Ok (), yearVault)"
    "updateExercise yearHost (exercise twoDays) yearVault = (Ok (), yearVault)"
    by (simp_all add: two_days_facts projector_None skip_def)
  have n0: "updateCalories yearHost (calories oxygenDay) yearVault = (Ok (), yearVault)"
    "updateExercise yearHost (exercise oxygenDay) yearVault = (Ok (), yearVault)"
    "updateHeartrate yearHost (heart oxygenDay) yearVault = (Ok (), yearVault)"
    "updateHydration yearHost (hydration oxygenDay) yearVault = (Ok (), yearVault)"
    by (simp_all add: oxygen_day_facts projector_None skip_def)
  have c1: "dailyNoteFor yearHost ''2024-01-20'' True yearVault = (Threw (CreateRejected ?p), ?v)"
    using cfg year_table_path absent refused by (intro locator) simp
  have c2: "updateHeartrate yearHost
         (Some ([] @ (''2024-01-20'', [(100, \<lparr>bpm = 60\<rparr>)]) # [(''2024-01-21'', [(100, \<lparr>bpm = 61\<rparr>)])]))
         yearVault = (Threw (CreateRejected ?p), ?v)"
    unfolding updateHeartrate_def
    using cfg year_table_path absent refused h0
    by (intro tables [where ?s1.0 = yearVault and u = "()"]) (simp add: updateHeartrate_def)
  have c3: "runSync yearHost (Some twoDays) yearVault = (Threw (CreateRejected ?p), ?v)"
    using cfg year_table_path absent refused h0 c0 two_days_facts(3)
    by (intro heartRun [where sa = yearVault and sb = yearVault and ?s1.0 = yearVault
          and u = "()" and hpre = "[]" and d = "''2024-01-20''"]) simp
  have c4: "runSync yearHost (Some oxygenDay) yearVault = (Threw (CreateRejected ?p), ?v)"
    using cfg year_table_path absent refused o0 n0 oxygen_day_facts(5)
    by (intro oxygenRun [where sa = yearVault and sb = yearVault and sc = yearVault
          and sd = yearVault and ?s1.0 = yearVault and u = "()" and opre = "[]"
          and d = "''2024-01-20''"]) simp
  from cfg year_table_path absent refused c1 h0 c2 c0 c3 o0 c4 show ?thesis by blast
qed

section \<open>Properties: a heading that is not found\<close>

lemma dropWhile_past:
  assumes "list_all P xs" and "take 1 ys = [y]" and "\<not> P y"
  shows "dropWhile P (xs @ ys) = ys"
proof -
  from assms(2) obtain ys' where ys: "ys = y # ys'" by (cases ys) auto
  from assms(1,3) show ?thesis unfolding ys by (induction xs) auto
qed

lemma sectionAt_heading:
  assumes "sectionAt heading s = Some r"
  shows "headingLinePrefix heading s"
proof -
  from assms obtain s1 where s: "s = CHR ''#'' # s1"
    by (cases s) (auto simp: sectionAt_def split: if_splits)
  let ?k3 = "literalThen [LF] (starThen (\<lambda>c. c \<noteq> CHR ''#'') boundary)"
  let ?k2 = "starThen (\<lambda>c. c = CHR '' '') ?k3"
  let ?k1 = "literalThen (CHR '' '' # heading) ?k2"
  from assms s obtain hashes r1 where st: "starThen (\<lambda>c. c = CHR ''#'') ?k1 s1 = Some (hashes, r1)"
    by (cases r) (auto simp: sectionAt_def)
  from starThen_Some [OF st] obtain rest1
    where s1: "s1 = hashes @ rest1" and h: "list_all (\<lambda>c. c = CHR ''#'') hashes"
      and k1: "?k1 rest1 = Some r1" by blast
  from literalThen_Some [OF k1]
  have name: "take (1 + length heading) rest1 = CHR '' '' # heading"
    and k2: "?k2 (drop (1 + length heading) rest1) = Some r1" by simp_all
  obtain spaces r2 where r1: "r1 = (spaces, r2)" by (cases r1)
  from starThen_Some [OF k2 [unfolded r1]] obtain rest2
    where d: "drop (1 + length heading) rest1 = spaces @ rest2"
      and sp: "list_all (\<lambda>c. c = CHR '' '') spaces" and k3: "?k3 rest2 = Some r2" by blast
  from literalThen_Some [OF k3] have lf: "take 1 rest2 = [LF]" by simp
  from name have sp1: "take 1 rest1 = '' ''"
    by (cases rest1) auto
  have dh: "dropWhile (\<lambda>c. c = CHR ''#'') s = rest1"
    using dropWhile_past [of "\<lambda>c. c = CHR ''#''" "CHR ''#'' # hashes" rest1 "CHR '' ''"] h sp1
    by (simp add: s s1)
  have ds: "dropWhile (\<lambda>c. c = CHR '' '') (drop (1 + length heading) rest1) = rest2"
    unfolding d using dropWhile_past [of "\<lambda>c. c = CHR '' ''" spaces rest2 LF] sp lf by simp
  show ?thesis
    unfolding headingLinePrefix_def Let_def dh ds using name lf by (simp add: s)
qed

lemma execFrom_heading:
  "execFrom heading bol i s = Some m \<Longrightarrow> anyHeadingLine heading bol s"
proof (induction s arbitrary: bol i)
  case Nil
  then show ?case by (auto simp: sectionAt_def split: if_splits option.splits)
next
  case (Cons c cs)
  show ?case
  proof (cases "bol \<and> sectionAt heading (c # cs) \<noteq> None")
    case True
    then show ?thesis using sectionAt_heading by auto
  next
    case False
    with Cons.prems have "execFrom heading (isLineTerminator c) (Suc i) cs = Some m"
      by (auto split: if_splits option.splits)
    from Cons.IH [OF this] show ?thesis by simp
  qed
qed

lemma section_test_heading: "section_test heading txt \<Longrightarrow> hasHeadingLine heading txt"
  using execFrom_heading [of heading True 0]
  by (auto simp: regexTest_def section_exec_def hasHeadingLine_def)

lemma malformed_example: "malformedHeading ''C++''" "\<not> plainHeading ''C++''"
  by (simp_all add: malformedHeading_def plainHeading_def)

lemma replaceSection_malformed:
  assumes "malformedHeading heading" and "dailyNoteFor h d tbl s = (Ok p, s1)"
  shows "replaceSection h d heading body tbl s = (Threw (SyntaxError heading), s1)"
proof -
  from assms(1) obtain c cs where "heading = c # cs"
    by (cases heading) (auto simp: malformedHeading_def)
  then have ne: "heading \<noteq> ''''" by simp
  have "stackedQuantifiers hd \<Longrightarrow> CHR ''*'' \<in> set hd \<or> CHR ''+'' \<in> set hd" for hd
  proof (induction hd rule: stackedQuantifiers.induct)
    case (1 c d cs)
    then show ?case by (cases "c = CHR ''*'' \<or> c = CHR ''+''") auto
  qed simp_all
  with assms(1) have "\<not> plainHeading heading"
    by (auto simp: malformedHeading_def plainHeading_def)
  with assms ne show ?thesis
    by (simp add: replaceSection_def andThen_def sectionRegExp_def)
qed

text \<open>
  C7 (as amended). For a heading that is plain text: when the note of the date is located
  and no line of it matches the heading, \<^verbatim>\<open>replaceSection\<close> returns without an error
  and leaves the state as locating the note left it; the document is unchanged and the
  new body is written nowhere. For a heading with two quantifiers side by side the
  pattern is refused: once the note is located the call throws a \<^verbatim>\<open>SyntaxError\<close>,
  whatever the document holds. With an empty heading the call does nothing at all.
\<close>

theorem replaceSection_no_heading_noop:
  "(plainHeading heading \<and> heading \<noteq> '''' \<and> dailyNoteFor h d tbl s = (Ok p, s1)
      \<and> \<not> hasHeadingLine heading (vaultRead s1 p)
    \<longrightarrow> replaceSection h d heading body tbl s = (Ok (), s1))
   \<and> (malformedHeading heading \<and> dailyNoteFor h d tbl s = (Ok p, s1)
    \<longrightarrow> replaceSection h d heading body tbl s = (Threw (SyntaxError heading), s1))
   \<and> replaceSection h d '''' body tbl s = (Ok (), s)"
proof (intro conjI impI)
  assume a: "plainHeading heading \<and> heading \<noteq> '''' \<and> dailyNoteFor h d tbl s = (Ok p, s1)
      \<and> \<not> hasHeadingLine heading (vaultRead s1 p)"
  then have "\<not> section_test heading (vaultRead s1 p)" using section_test_heading by blast
  with a show "replaceSection h d heading body tbl s = (Ok (), s1)"
    by (simp add: replaceSection_located)
next
  assume "malformedHeading heading \<and> dailyNoteFor h d tbl s = (Ok p, s1)"
  then show "replaceSection h d heading body tbl s = (Threw (SyntaxError heading), s1)"
    by (simp add: replaceSection_malformed)
next
  show "replaceSection h d '''' body tbl s = (Ok (), s)"
    by (simp add: replaceSection_def skip_def)
qed

lemma demo_no_exercise_heading: "\<not> hasHeadingLine ''Oefening'' demoText"
  by (simp add: hasHeadingLine_def demoText_def headingLinePrefix_def isLineTerminator_def)

text \<open>
  The note of the example vault has the headings \<^verbatim>\<open>H\<close> and \<^verbatim>\<open>N\<close> and no exercise
  heading: a rewrite of the exercise section leaves the vault as it was. A rewrite under
  the heading \<^verbatim>\<open>C++\<close> throws.
\<close>

theorem replaceSection_no_heading_noop_witness:
  "plainHeading ''Oefening'' \<and> ''Oefening'' \<noteq> ''''
   \<and> dailyNoteFor demoHost ''2024-01-20'' False demoState = (Ok ''daily/2024-01-20.md'', demoState)
   \<and> \<not> hasHeadingLine ''Oefening'' (vaultRead demoState ''daily/2024-01-20.md'')
   \<and> replaceSection demoHost ''2024-01-20'' ''Oefening'' ''  - **0:30**: Running'' False demoState
     = (Ok (), demoState)
   \<and> malformedHeading ''C++''
   \<and> replaceSection demoHost ''2024-01-20'' ''C++'' ''  - **0:30**: Running'' False demoState
     = (Threw (SyntaxError ''C++''), demoState)"
  using replaceSection_no_heading_noop [of "''Oefening''" demoHost "''2024-01-20''" False demoState
      "''daily/2024-01-20.md''" demoState "''  - **0:30**: Running''"]
    replaceSection_no_heading_noop [of "''C++''" demoHost "''2024-01-20''" False demoState
      "''daily/2024-01-20.md''" demoState "''  - **0:30**: Running''"]
  by (simp add: demo_located demo_read demo_no_exercise_heading plainHeading_def
      malformed_example)

text \<open>
  C7 as stated fails for a heading that is no well-formed pattern. The note of the
  example vault has no line for the heading \<^verbatim>\<open>C++\<close>, and the rewrite of that section
  throws: the heading is spliced into the pattern, where its second \<^verbatim>\<open>+\<close> has nothing
  to repeat.
\<close>

theorem heading_pattern_counterexample:
  "\<not> hasHeadingLine ''C++'' (vaultRead demoState ''daily/2024-01-20.md'')
   \<and> replaceSection demoHost ''2024-01-20'' ''C++'' (''new'' @ [LF]) False demoState
     = (Threw (SyntaxError ''C++''), demoState)"
proof
  show "\<not> hasHeadingLine ''C++'' (vaultRead demoState ''daily/2024-01-20.md'')"
    by (simp add: demo_read hasHeadingLine_def demoText_def headingLinePrefix_def
        isLineTerminator_def)
  show "replaceSection demoHost ''2024-01-20'' ''C++'' (''new'' @ [LF]) False demoState
        = (Threw (SyntaxError ''C++''), demoState)"
    by (rule replaceSection_malformed [OF malformed_example(1) demo_located])
qed

section \<open>Properties: dollars in the new section body\<close>

text \<open>
  The body is spliced into the replacement string \<^verbatim>\<open>$1...$2\<close> after
  \<^verbatim>\<open>new_section_content.replace("$", "$$")\<close>. With a string for its pattern,
  \<^verbatim>\<open>replace\<close> rewrites the first dollar only, and it expands its own replacement
  \<^verbatim>\<open>$$\<close> to one dollar: the step returns every body as it was (\<open>escape_identity\<close>), and
  the dollars of the body reach the replacement string unescaped.
\<close>

text \<open>
  C4 at a body with two dollars. The escaping step changes no body, and the body
  \<^verbatim>\<open>5$$\<close> (and a line feed) is written into the note as \<^verbatim>\<open>5$\<close>: the two dollars
  reach the replacement string as they are and expand to one.
\<close>

theorem dollars_not_escaped:
  "stringReplace body ''$'' ''$$'' = body
   \<and> replaceSection demoHost ''2024-01-20'' ''H'' (''5$$'' @ [LF]) False demoState
     = (Ok (), demoState\<lparr>files := [''daily/2024-01-20.md'' \<mapsto>
          \<lparr>frontmatter = Map.empty,
           content = ''intro'' @ [LF] @ ''# H'' @ [LF] @ ''5$'' @ [LF] @ [LF] @ ''# N'' @ [LF]
                     @ ''rest'' @ [LF]\<rparr>]\<rparr>)"
proof
  show "stringReplace body ''$'' ''$$'' = body" by (rule escape_identity)
  show "replaceSection demoHost ''2024-01-20'' ''H'' (''5$$'' @ [LF]) False demoState
     = (Ok (), demoState\<lparr>files := [''daily/2024-01-20.md'' \<mapsto>
          \<lparr>frontmatter = Map.empty,
           content = ''intro'' @ [LF] @ ''# H'' @ [LF] @ ''5$'' @ [LF] @ [LF] @ ''# N'' @ [LF]
                     @ ''rest'' @ [LF]\<rparr>]\<rparr>)"
    by (simp add: replaceSection_demo escape_identity)
      (simp add: demoText_def demoState_def section_exec_def sectionAt_def literalThen_def
        boundary_def isLineTerminator_def regexReplace_def mkMatch_def
        vaultModify_def captureText_def isDigit_def digitValue_def)
qed

text \<open>
  The same from a run's data: an exercise session whose name holds two dollars is
  listed with one.
\<close>

lemma exercise_name_dollars:
  "vaultRead (snd (updateExercise demoHost (Some [(''2024-01-20'', dollarDay)]) exerciseVault))
     ''daily/2024-01-20.md''
   = ''# Oefening'' @ [LF] @ ''  - **0:10**: Padel $'' @ [LF]"
  apply (simp add: updateExercise_def dollarDay_def exerciseLine_def EXERCISE_TYPE_MAPPINGS_def
      andThen_def Let_def str_10 demo_fields demo_host_facts)
  apply (simp add: replaceSection_plain plain_headings andThen_def skip_def
      dailyNoteFor_def dailyNotePathFor_def Let_def vaultRead_def regexTest_def
      section_exec_def sectionAt_def literalThen_def boundary_def isLineTerminator_def
      regexReplace_def mkMatch_def stringReplace_def vaultModify_def exerciseVault_def
      captureText_def isDigit_def digitValue_def demoHost_def DEFAULT_SETTINGS_def)
  apply (simp add: updateFrontMatter_def andThen_def
      dailyNoteFor_def dailyNotePathFor_def Let_def processFrontMatter_def storeToSummary_def
      vaultRead_def demoHost_def DEFAULT_SETTINGS_def)
  done

section \<open>Properties: metadata writes are idempotent\<close>


































section \<open>Properties: what a section rewrite keeps\<close>

text \<open>
  A match of the section pattern of a plain heading is a heading line, the text up to the
  boundary, and the boundary: a line feed and a hash, or the end of the text. The
  replacement string \<^verbatim>\<open>$1...$2\<close> expands to the heading line, the expansion of the
  body and the boundary whenever the body does not end in a dollar, and a body free of
  dollars expands to itself.
\<close>

lemma boundary_Some:
  assumes "boundary s = Some (g2, g3, g4, rest)"
  shows "s = g2 @ rest" and "g2 = [LF, CHR ''#''] \<or> g2 = [] \<and> rest = []"
proof -
  show "s = g2 @ rest"
  proof (cases "take 2 s = [LF, CHR ''#'']")
    case True
    with assms have "g2 = [LF, CHR ''#'']" and "rest = drop 2 s" by (simp_all add: boundary_def)
    with True show ?thesis by (metis append_take_drop_id)
  next
    case False
    with assms show ?thesis by (auto simp: boundary_def split: if_splits)
  qed
  show "g2 = [LF, CHR ''#''] \<or> g2 = [] \<and> rest = []"
    using assms
    by (cases s) (auto simp: boundary_def isLineTerminator_def split: if_splits)
qed

lemma sectionAt_Some:
  assumes "sectionAt heading s = Some (hashes, spaces, old, g2, g3, g4, rest)"
  shows "s = (CHR ''#'' # hashes @ CHR '' '' # heading @ spaces @ [LF]) @ old @ g2 @ rest"
    and "CHR ''#'' \<notin> set old"
    and "g2 = [LF, CHR ''#''] \<or> g2 = [] \<and> rest = []"
    and "list_all (\<lambda>c. c = CHR ''#'') hashes" and "list_all (\<lambda>c. c = CHR '' '') spaces"
proof -
  from assms obtain s1 where s: "s = CHR ''#'' # s1"
    by (cases s) (auto simp: sectionAt_def split: if_splits)
  let ?k4 = "starThen (\<lambda>c. c \<noteq> CHR ''#'') boundary"
  let ?k3 = "literalThen [LF] ?k4"
  let ?k2 = "starThen (\<lambda>c. c = CHR '' '') ?k3"
  let ?k1 = "literalThen (CHR '' '' # heading) ?k2"
  from assms s have st: "starThen (\<lambda>c. c = CHR ''#'') ?k1 s1
                         = Some (hashes, spaces, old, g2, g3, g4, rest)"
    by (simp add: sectionAt_def)
  from starThen_Some [OF st] obtain rest1
    where s1: "s1 = hashes @ rest1" and k1: "?k1 rest1 = Some (spaces, old, g2, g3, g4, rest)"
      and hs: "list_all (\<lambda>c. c = CHR ''#'') hashes"
    by blast
  from literalThen_Some [OF k1]
  have name: "take (1 + length heading) rest1 = CHR '' '' # heading"
    and k2: "?k2 (drop (1 + length heading) rest1) = Some (spaces, old, g2, g3, g4, rest)"
    by simp_all
  from starThen_Some [OF k2] obtain rest2
    where d: "drop (1 + length heading) rest1 = spaces @ rest2"
      and k3: "?k3 rest2 = Some (old, g2, g3, g4, rest)"
      and sp: "list_all (\<lambda>c. c = CHR '' '') spaces" by blast
  from literalThen_Some [OF k3] have lf: "take 1 rest2 = [LF]"
    and k4: "?k4 (drop 1 rest2) = Some (old, g2, g3, g4, rest)" by simp_all
  from starThen_Some [OF k4] obtain rest3
    where d3: "drop 1 rest2 = old @ rest3" and old: "list_all (\<lambda>c. c \<noteq> CHR ''#'') old"
      and b: "boundary rest3 = Some (g2, g3, g4, rest)" by blast
  from boundary_Some [OF b] have r3: "rest3 = g2 @ rest"
    and g2: "g2 = [LF, CHR ''#''] \<or> g2 = [] \<and> rest = []" by simp_all
  have "rest2 = [LF] @ old @ g2 @ rest"
    using lf d3 r3 by (metis append_take_drop_id)
  moreover have "rest1 = (CHR '' '' # heading) @ spaces @ rest2"
    using name d by (metis append_take_drop_id)
  ultimately show "s = (CHR ''#'' # hashes @ CHR '' '' # heading @ spaces @ [LF]) @ old @ g2 @ rest"
    by (simp add: s s1)
  from old show "CHR ''#'' \<notin> set old" by (auto simp: list_all_iff)
  from g2 show "g2 = [LF, CHR ''#''] \<or> g2 = [] \<and> rest = []" .
  from hs show "list_all (\<lambda>c. c = CHR ''#'') hashes" .
  from sp show "list_all (\<lambda>c. c = CHR '' '') spaces" .
qed

lemma execFrom_Some:
  assumes "execFrom heading bol i s = Some m"
  shows "\<exists>j r. j \<le> length s \<and> sectionAt heading (drop j s) = Some r
               \<and> m = mkMatch (i + j) heading r"
  using assms
proof (induction s arbitrary: bol i)
  case Nil
  then show ?case by (auto split: if_splits option.splits)
next
  case (Cons c cs)
  show ?case
  proof (cases "if bol then sectionAt heading (c # cs) else None")
    case (Some r)
    with Cons.prems have "m = mkMatch i heading r" by simp
    moreover from Some have "sectionAt heading (c # cs) = Some r" by (simp split: if_splits)
    ultimately show ?thesis by (intro exI [of _ 0]) simp
  next
    case None
    with Cons.prems have "execFrom heading (isLineTerminator c) (Suc i) cs = Some m" by simp
    from Cons.IH [OF this] obtain j r where "j \<le> length cs"
      and "sectionAt heading (drop j cs) = Some r" and "m = mkMatch (Suc i + j) heading r"
      by blast
    then show ?thesis by (intro exI [of _ "Suc j"]) simp
  qed
qed

lemma getSubstitution_plain:
  "CHR ''$'' \<notin> set body \<Longrightarrow>
   getSubstitution matched str position caps (body @ t)
   = body @ getSubstitution matched str position caps t"
proof (induction body)
  case Nil
  show ?case by simp
next
  case (Cons c body)
  then have c: "c \<noteq> CHR ''$''" and IH: "getSubstitution matched str position caps (body @ t)
      = body @ getSubstitution matched str position caps t" by auto
  show ?case
  proof (cases "body @ t")
    case Nil
    then show ?thesis by simp
  next
    case (Cons d rest)
    with c IH show ?thesis by simp
  qed
qed

lemma template_plain:
  assumes "CHR ''$'' \<notin> set body"
  shows "getSubstitution matched str position [Some g1, Some g2, g3, g4] (''$1'' @ body @ ''$2'')
         = g1 @ body @ g2"
proof -
  let ?caps = "[Some g1, Some g2, g3, g4]"
  have last: "getSubstitution matched str position ?caps ''$2'' = g2"
    by (simp add: isDigit_def digitValue_def captureText_def)
  obtain e rest where er: "body @ ''$2'' = e # rest" by (cases "body @ ''$2''") auto
  have "getSubstitution matched str position ?caps (''$1'' @ body @ ''$2'')
        = g1 @ getSubstitution matched str position ?caps (body @ ''$2'')"
    by (simp add: er isDigit_def digitValue_def captureText_def)
  with assms last show ?thesis by (simp add: getSubstitution_plain)
qed

lemma getSubstitution_prefix:
  "(b = [] \<or> last b \<noteq> CHR ''$'') \<Longrightarrow> (t = [] \<or> \<not> isDigit (hd t)) \<Longrightarrow>
   \<exists>x. getSubstitution matched str position caps (b @ t)
       = x @ getSubstitution matched str position caps t"
proof (induction b rule: length_induct)
  case (1 b)
  let ?g = "getSubstitution matched str position caps"
  note IH = 1(1) [rule_format] and lastb = 1(2) and t = 1(3)
  show ?case
  proof (cases b)
    case Nil
    then show ?thesis by simp
  next
    case (Cons c b1)
    show ?thesis
    proof (cases b1)
      case Nil
      with Cons lastb have c: "c \<noteq> CHR ''$''" by simp
      show ?thesis
      proof (cases t)
        case Nil
        with Cons \<open>b1 = []\<close> show ?thesis by simp
      next
        case (Cons d rest)
        with c \<open>b = c # b1\<close> \<open>b1 = []\<close> show ?thesis by simp
      qed
    next
      case b1: (Cons d b2)
      have tail: "\<exists>x. ?g (b' @ t) = x @ ?g t"
        if "length b' < length b" and "b' = [] \<or> last b' \<noteq> CHR ''$''" for b'
        using IH [OF that(1) that(2) t] .
      have l1: "last b1 \<noteq> CHR ''$''" using lastb Cons b1 by simp
      have l2: "b2 = [] \<or> last b2 \<noteq> CHR ''$''" using l1 b1 by (cases b2) simp_all
      from tail [of b1] l1 Cons obtain x1 where x1: "?g (b1 @ t) = x1 @ ?g t" by auto
      from tail [of b2] l2 Cons b1 obtain x2 where x2: "?g (b2 @ t) = x2 @ ?g t" by auto
      have b: "b @ t = c # d # (b2 @ t)" by (simp add: Cons b1)
      show ?thesis
      proof (cases "c = CHR ''$''")
        case False
        with x1 show ?thesis by (simp add: b b1)
      next
        case True
        show ?thesis
        proof (cases "isDigit d")
          case False
          with True x1 x2 show ?thesis by (auto simp add: b b1)
        next
          case dig: True
          then have nd: "d \<noteq> CHR ''$''" "d \<noteq> CHR ''&''" "d \<noteq> CHR 0x60" "d \<noteq> CHR 0x27"
            by (auto simp: isDigit_def)
          show ?thesis
          proof (cases "b2 @ t")
            case Nil
            with True dig nd show ?thesis by (simp add: b)
          next
            case (Cons e rest')
            show ?thesis
            proof (cases b2)
              case Nil
              with Cons have tt: "t = e # rest'" by simp
              with t have "\<not> isDigit e" by auto
              with True dig nd
              have "?g (c # d # e # rest')
                    = (if 1 \<le> digitValue d \<and> digitValue d \<le> length caps
                       then captureText caps (digitValue d) else [c, d]) @ ?g (e # rest')"
                by simp
              moreover have "b @ t = c # d # e # rest'" using b Cons by simp
              ultimately have "?g (b @ t)
                    = (if 1 \<le> digitValue d \<and> digitValue d \<le> length caps
                       then captureText caps (digitValue d) else [c, d]) @ ?g t"
                by (simp only: tt)
              then show ?thesis by blast
            next
              case b2: (Cons e' b3)
              with Cons have e: "e' = e" and rest': "rest' = b3 @ t" by simp_all
              have l3: "b3 = [] \<or> last b3 \<noteq> CHR ''$''" using l2 b2 by (cases b3) simp_all
              from tail [of b3] l3 \<open>b = c # b1\<close> b1 b2 obtain x3 where x3: "?g (b3 @ t) = x3 @ ?g t"
                by auto
              from x2 have x2': "?g (e # b3 @ t) = x2 @ ?g t" by (simp add: b2 e)
              from True dig nd x2' x3 show ?thesis
                by (auto simp add: b b2 e)
            qed
          qed
        qed
      qed
    qed
  qed
qed

lemma template_frame:
  assumes "body = [] \<or> last body \<noteq> CHR ''$''"
  shows "\<exists>x. getSubstitution matched str position [Some g1, Some g2, g3, g4]
               (''$1'' @ body @ ''$2'') = g1 @ x @ g2
             \<and> (CHR ''$'' \<notin> set body \<longrightarrow> x = body)"
proof (cases "CHR ''$'' \<in> set body")
  case False
  from template_plain [OF this, of matched str position g1 g2 g3 g4] show ?thesis by blast
next
  case True
  let ?caps = "[Some g1, Some g2, g3, g4]"
  have last: "getSubstitution matched str position ?caps ''$2'' = g2"
    by (simp add: isDigit_def digitValue_def captureText_def)
  have "''$2'' = [] \<or> \<not> isDigit (hd ''$2'')" by (simp add: isDigit_def)
  from getSubstitution_prefix [OF assms this, of matched str position ?caps]
  obtain x where "getSubstitution matched str position ?caps (body @ ''$2'')
                  = x @ getSubstitution matched str position ?caps ''$2''" by blast
  then have x: "getSubstitution matched str position ?caps (body @ ''$2'') = x @ g2"
    by (simp only: last)
  obtain e rest where er: "body @ ''$2'' = e # rest" by (cases "body @ ''$2''") auto
  have "getSubstitution matched str position ?caps (''$1'' @ body @ ''$2'')
        = g1 @ getSubstitution matched str position ?caps (body @ ''$2'')"
    by (simp add: er isDigit_def digitValue_def captureText_def)
  with x True show ?thesis by simp
qed

lemma section_replace_frame:
  assumes "section_exec heading txt = Some m" and "body = [] \<or> last body \<noteq> CHR ''$''"
  shows "\<exists>before hashes spaces old new bnd after.
           txt = before @ (CHR ''#'' # hashes @ CHR '' '' # heading @ spaces @ [LF]) @ old @ bnd @ after
           \<and> section_replace heading txt (''$1'' @ body @ ''$2'')
             = before @ (CHR ''#'' # hashes @ CHR '' '' # heading @ spaces @ [LF]) @ new @ bnd @ after
           \<and> (CHR ''$'' \<notin> set body \<longrightarrow> new = body)
           \<and> list_all (\<lambda>c. c = CHR ''#'') hashes \<and> list_all (\<lambda>c. c = CHR '' '') spaces
           \<and> CHR ''#'' \<notin> set old
           \<and> (bnd = [LF, CHR ''#''] \<or> bnd = [] \<and> after = [])"
proof -
  from assms(1) have "execFrom heading True 0 txt = Some m" by (simp add: section_exec_def)
  from execFrom_Some [OF this] obtain j r where j: "j \<le> length txt"
    and at: "sectionAt heading (drop j txt) = Some r" and m: "m = mkMatch (0 + j) heading r"
    by blast
  obtain hashes spaces old g2 g3 g4 rest where r: "r = (hashes, spaces, old, g2, g3, g4, rest)"
    by (cases r)
  let ?line = "CHR ''#'' # hashes @ CHR '' '' # heading @ spaces @ [LF]"
  note facts = sectionAt_Some [OF at [unfolded r]]
  have idx: "m_index m = j" and mt: "m_matched m = ?line @ old @ g2"
    and caps: "m_captures m = [Some ?line, Some g2, g3, g4]"
    by (simp_all add: m r mkMatch_def)
  have whole: "txt = take j txt @ ?line @ old @ g2 @ rest"
    using facts(1) by (metis append_take_drop_id)
  have "drop (j + length (?line @ old @ g2)) txt = drop (length (?line @ old @ g2)) (drop j txt)"
    by (simp add: add.commute)
  also have "\<dots> = rest" unfolding facts(1) by simp
  finally have after: "drop (j + length (m_matched m)) txt = rest"
    by (simp only: mt)
  from template_frame [OF assms(2), of "m_matched m" "txt" j ?line g2 g3 g4]
  obtain x where x: "getSubstitution (m_matched m) txt j [Some ?line, Some g2, g3, g4]
                       (''$1'' @ body @ ''$2'') = ?line @ x @ g2"
    and plain: "CHR ''$'' \<notin> set body \<longrightarrow> x = body" by blast
  have "section_replace heading txt (''$1'' @ body @ ''$2'')
        = take j txt @ (?line @ x @ g2) @ rest"
    unfolding regexReplace_def assms(1) option.case caps idx after
    by (simp only: x)
  then have res: "section_replace heading txt (''$1'' @ body @ ''$2'')
        = take j txt @ ?line @ x @ g2 @ rest" by (simp only: append_assoc)
  show ?thesis
  proof (intro exI conjI)
    show "txt = take j txt @ ?line @ old @ g2 @ rest" by (rule whole)
    show "section_replace heading txt (''$1'' @ body @ ''$2'')
          = take j txt @ ?line @ x @ g2 @ rest" by (rule res)
    show "CHR ''$'' \<notin> set body \<longrightarrow> x = body" by (rule plain)
    show "list_all (\<lambda>c. c = CHR ''#'') hashes" by (rule facts(4))
    show "list_all (\<lambda>c. c = CHR '' '') spaces" by (rule facts(5))
    show "CHR ''#'' \<notin> set old" by (rule facts(2))
    show "g2 = [LF, CHR ''#''] \<or> g2 = [] \<and> rest = []" by (rule facts(3))
  qed
qed

text \<open>
  C2 (as amended). The heading is plain text and the new body does not end in a dollar.
  When the note is located and the pattern finds a section in it, the text of the note
  is a part before the section, the heading line (hashes, a space, the heading, spaces, a
  line feed), the old body (free of hashes), the boundary (a line feed and a hash, or
  nothing at the end of the text) and the part after it; the rewrite writes the same
  text with a new body in the place of the old one, and nothing else is changed. A new
  body free of dollars is written as it is.
\<close>

theorem section_rewrite_frame:
  "plainHeading heading \<and> heading \<noteq> '''' \<and> (body = [] \<or> last body \<noteq> CHR ''$'')
   \<and> dailyNoteFor h d tbl s = (Ok p, s1) \<and> section_test heading (vaultRead s1 p)
   \<longrightarrow> (\<exists>before hashes spaces old new bnd after.
          vaultRead s1 p
            = before @ (CHR ''#'' # hashes @ CHR '' '' # heading @ spaces @ [LF]) @ old @ bnd @ after
          \<and> replaceSection h d heading body tbl s
            = (Ok (), vaultModify p
                 (before @ (CHR ''#'' # hashes @ CHR '' '' # heading @ spaces @ [LF]) @ new @ bnd
                  @ after) s1)
          \<and> (CHR ''$'' \<notin> set body \<longrightarrow> new = body)
          \<and> list_all (\<lambda>c. c = CHR ''#'') hashes \<and> list_all (\<lambda>c. c = CHR '' '') spaces
          \<and> CHR ''#'' \<notin> set old
          \<and> (bnd = [LF, CHR ''#''] \<or> bnd = [] \<and> after = []))"
proof
  assume a: "plainHeading heading \<and> heading \<noteq> '''' \<and> (body = [] \<or> last body \<noteq> CHR ''$'')
   \<and> dailyNoteFor h d tbl s = (Ok p, s1) \<and> section_test heading (vaultRead s1 p)"
  then have loc: "dailyNoteFor h d tbl s = (Ok p, s1)" and ne: "heading \<noteq> ''''"
    and body: "body = [] \<or> last body \<noteq> CHR ''$''" and plain: "plainHeading heading"
    and found: "section_test heading (vaultRead s1 p)" by simp_all
  from found obtain m where m: "section_exec heading (vaultRead s1 p) = Some m"
    by (auto simp: regexTest_def)
  let ?line = "\<lambda>hashes spaces. CHR ''#'' # hashes @ CHR '' '' # heading @ spaces @ [LF]"
  from section_replace_frame [OF m body]
  obtain before hashes spaces old new bnd after
    where whole: "vaultRead s1 p = before @ ?line hashes spaces @ old @ bnd @ after"
      and new: "section_replace heading (vaultRead s1 p) (''$1'' @ body @ ''$2'')
                = before @ ?line hashes spaces @ new @ bnd @ after"
      and rest: "CHR ''$'' \<notin> set body \<longrightarrow> new = body"
        "list_all (\<lambda>c. c = CHR ''#'') hashes" "list_all (\<lambda>c. c = CHR '' '') spaces"
        "CHR ''#'' \<notin> set old" "bnd = [LF, CHR ''#''] \<or> bnd = [] \<and> after = []"
    by blast
  have "replaceSection h d heading body tbl s
        = (Ok (), vaultModify p
             (section_replace heading (vaultRead s1 p) (''$1'' @ body @ ''$2'')) s1)"
    using found by (simp add: replaceSection_located [OF loc ne plain] escape_identity)
  then have rs: "replaceSection h d heading body tbl s
        = (Ok (), vaultModify p (before @ ?line hashes spaces @ new @ bnd @ after) s1)"
    by (simp only: new)
  show "\<exists>before hashes spaces old new bnd after.
          vaultRead s1 p = before @ ?line hashes spaces @ old @ bnd @ after
          \<and> replaceSection h d heading body tbl s
            = (Ok (), vaultModify p (before @ ?line hashes spaces @ new @ bnd @ after) s1)
          \<and> (CHR ''$'' \<notin> set body \<longrightarrow> new = body)
          \<and> list_all (\<lambda>c. c = CHR ''#'') hashes \<and> list_all (\<lambda>c. c = CHR '' '') spaces
          \<and> CHR ''#'' \<notin> set old
          \<and> (bnd = [LF, CHR ''#''] \<or> bnd = [] \<and> after = [])"
    using whole rs rest by (intro exI conjI)
qed

lemma demo_section_found: "section_test ''H'' (vaultRead demoState ''daily/2024-01-20.md'')"
  by (simp add: demo_read regexTest_def section_exec_def sectionAt_def literalThen_def
      boundary_def isLineTerminator_def demoText_def)

lemma plain_rewrite:
  "replaceSection demoHost ''2024-01-20'' ''H'' (''new'' @ [LF]) False demoState
   = (Ok (), demoState\<lparr>files := [''daily/2024-01-20.md'' \<mapsto>
        \<lparr>frontmatter = Map.empty,
         content = ''intro'' @ [LF] @ ''# H'' @ [LF] @ ''new'' @ [LF] @ [LF] @ ''# N'' @ [LF]
                   @ ''rest'' @ [LF]\<rparr>]\<rparr>)"
  by (simp add: replaceSection_demo)
    (simp add: demoText_def demoState_def section_exec_def sectionAt_def literalThen_def
      boundary_def isLineTerminator_def regexReplace_def mkMatch_def stringReplace_def
      vaultModify_def captureText_def isDigit_def digitValue_def)

text \<open>
  The section \<^verbatim>\<open>H\<close> of the example note, rewritten with the body \<^verbatim>\<open>new\<close> and a line
  feed: the parts of the theorem exist, and the note afterwards has the new body between
  the heading line and the line feed and hash that start the next heading.
\<close>

theorem section_rewrite_frame_witness:
  "plainHeading ''H'' \<and> ''H'' \<noteq> ''''
   \<and> (''new'' @ [LF] = [] \<or> last (''new'' @ [LF]) \<noteq> CHR ''$'')
   \<and> dailyNoteFor demoHost ''2024-01-20'' False demoState = (Ok ''daily/2024-01-20.md'', demoState)
   \<and> section_test ''H'' (vaultRead demoState ''daily/2024-01-20.md'')
   \<and> (\<exists>before hashes spaces old new bnd after.
          vaultRead demoState ''daily/2024-01-20.md''
            = before @ (CHR ''#'' # hashes @ CHR '' '' # ''H'' @ spaces @ [LF]) @ old @ bnd @ after
          \<and> replaceSection demoHost ''2024-01-20'' ''H'' (''new'' @ [LF]) False demoState
            = (Ok (), vaultModify ''daily/2024-01-20.md''
                 (before @ (CHR ''#'' # hashes @ CHR '' '' # ''H'' @ spaces @ [LF]) @ new @ bnd
                  @ after) demoState)
          \<and> (CHR ''$'' \<notin> set (''new'' @ [LF]) \<longrightarrow> new = ''new'' @ [LF])
          \<and> list_all (\<lambda>c. c = CHR ''#'') hashes \<and> list_all (\<lambda>c. c = CHR '' '') spaces
          \<and> CHR ''#'' \<notin> set old
          \<and> (bnd = [LF, CHR ''#''] \<or> bnd = [] \<and> after = []))
   \<and> vaultRead demoState ''daily/2024-01-20.md''
     = ''intro'' @ [LF] @ ''# H'' @ [LF] @ ''old'' @ [LF] @ ''# N'' @ [LF] @ ''rest'' @ [LF]
   \<and> replaceSection demoHost ''2024-01-20'' ''H'' (''new'' @ [LF]) False demoState
     = (Ok (), demoState\<lparr>files := [''daily/2024-01-20.md'' \<mapsto>
          \<lparr>frontmatter = Map.empty,
           content = ''intro'' @ [LF] @ ''# H'' @ [LF] @ ''new'' @ [LF] @ [LF] @ ''# N'' @ [LF]
                     @ ''rest'' @ [LF]\<rparr>]\<rparr>)"
proof -
  have hyps: "plainHeading ''H'' \<and> ''H'' \<noteq> ''''
      \<and> (''new'' @ [LF] = [] \<or> last (''new'' @ [LF]) \<noteq> CHR ''$'')
      \<and> dailyNoteFor demoHost ''2024-01-20'' False demoState
        = (Ok ''daily/2024-01-20.md'', demoState)
      \<and> section_test ''H'' (vaultRead demoState ''daily/2024-01-20.md'')"
    using demo_located demo_section_found by (simp add: plain_headings)
  note frame = section_rewrite_frame [of "''H''" "''new'' @ [LF]" demoHost "''2024-01-20''" False
      demoState "''daily/2024-01-20.md''" demoState, THEN mp, OF hyps]
  have before: "vaultRead demoState ''daily/2024-01-20.md''
     = ''intro'' @ [LF] @ ''# H'' @ [LF] @ ''old'' @ [LF] @ ''# N'' @ [LF] @ ''rest'' @ [LF]"
    by (simp add: demo_read demoText_def)
  from hyps frame before plain_rewrite show ?thesis by (intro conjI) simp_all
qed

subsection \<open>Where the frame breaks\<close>

lemma grouped_rewrite:
  "replaceSection demoHost ''2024-01-20'' ''(H)'' (''new'' @ [LF]) False demoState
   = (Ok (), demoState\<lparr>files := [''daily/2024-01-20.md'' \<mapsto>
        \<lparr>frontmatter = Map.empty,
         content = ''intro'' @ [LF] @ ''# H'' @ [LF] @ ''new'' @ [LF] @ ''H N'' @ [LF] @ ''rest''
                   @ [LF]\<rparr>]\<rparr>)"
proof -
  have g: "sectionRegExp demoHost ''(H)''
           = Some (\<lambda>txt. map_option (withGroup ''H'') (section_exec ''H'' txt))"
    by (simp add: sectionRegExp_def plainHeading_def malformedHeading_def groupedHeading_def)
  show ?thesis
    apply (simp add: replaceSection_def andThen_def demo_located demo_read g)
    apply (simp add: demoText_def demoState_def regexTest_def regexReplace_def withGroup_def
        section_exec_def sectionAt_def literalThen_def boundary_def isLineTerminator_def
        mkMatch_def stringReplace_def vaultModify_def captureText_def isDigit_def
        digitValue_def)
    done
qed

lemma trailing_dollar_rewrite:
  "replaceSection demoHost ''2024-01-20'' ''H'' ''$'' False demoState
   = (Ok (), demoState\<lparr>files := [''daily/2024-01-20.md'' \<mapsto>
        \<lparr>frontmatter = Map.empty,
         content = ''intro'' @ [LF] @ ''# H'' @ [LF] @ ''$2 N'' @ [LF] @ ''rest'' @ [LF]\<rparr>]\<rparr>)"
  by (simp add: replaceSection_demo)
    (simp add: demoText_def demoState_def section_exec_def sectionAt_def literalThen_def
      boundary_def isLineTerminator_def regexReplace_def mkMatch_def stringReplace_def
      vaultModify_def captureText_def isDigit_def digitValue_def)

text \<open>
  C2 as stated fails in two ways. A heading with a group: \<^verbatim>\<open>(H)\<close> is read as a pattern,
  it matches the heading line \<^verbatim>\<open># H\<close>, and in the replacement string \<^verbatim>\<open>$2\<close> now
  stands for the group of the heading; the line feed and hash that end the section are
  not written back, the text \<^verbatim>\<open>H\<close> is, and the next heading line \<^verbatim>\<open># N\<close> becomes
  \<^verbatim>\<open>H N\<close>. A body that ends in a dollar: the dollar pairs with the dollar of \<^verbatim>\<open>$2\<close>,
  the boundary is not written back either, and the line \<^verbatim>\<open># N\<close> becomes \<^verbatim>\<open>$2 N\<close>.
\<close>

theorem section_frame_counterexample:
  "vaultRead demoState ''daily/2024-01-20.md''
     = ''intro'' @ [LF] @ ''# H'' @ [LF] @ ''old'' @ [LF] @ ''# N'' @ [LF] @ ''rest'' @ [LF]
   \<and> replaceSection demoHost ''2024-01-20'' ''(H)'' (''new'' @ [LF]) False demoState
     = (Ok (), demoState\<lparr>files := [''daily/2024-01-20.md'' \<mapsto>
          \<lparr>frontmatter = Map.empty,
           content = ''intro'' @ [LF] @ ''# H'' @ [LF] @ ''new'' @ [LF] @ ''H N'' @ [LF]
                     @ ''rest'' @ [LF]\<rparr>]\<rparr>)
   \<and> replaceSection demoHost ''2024-01-20'' ''H'' ''$'' False demoState
     = (Ok (), demoState\<lparr>files := [''daily/2024-01-20.md'' \<mapsto>
          \<lparr>frontmatter = Map.empty,
           content = ''intro'' @ [LF] @ ''# H'' @ [LF] @ ''$2 N'' @ [LF] @ ''rest'' @ [LF]\<rparr>]\<rparr>)"
  using grouped_rewrite trailing_dollar_rewrite by (simp add: demo_read demoText_def)


end
